theory Spec2Isabelle
  imports Complex_Main "HOL-Library.Char_ord" "HOL-Library.List_Lexorder" "HOL-Library.Log_Nat"
begin

section \<open>Strings, character classes and the two regular expressions\<close>

text \<open>
  A Python \<open>str\<close> is modelled as a \<open>string\<close> whose characters are the code points
  below 256. In that range \<open>\d\<close> of the \<open>re\<close> module is \<open>0-9\<close>, \<open>[A-Za-z]\<close> is the
  ASCII letters, and \<open>\s\<close> is the set of characters for which \<open>str.isspace\<close> holds.
  The white space that \<open>float()\<close> drops around a number is smaller: the six ASCII
  characters and the two blanks above 127, without the four separators \<open>0x1C\<close> to
  \<open>0x1F\<close>.
\<close>

definition is_digit :: "char \<Rightarrow> bool" where
  "is_digit c = (c \<in> set ''0123456789'')"

definition is_alpha :: "char \<Rightarrow> bool" where
  "is_alpha c = (c \<in> set ''ABCDEFGHIJKLMNOPQRSTUVWXYZabcdefghijklmnopqrstuvwxyz'')"

definition is_space :: "char \<Rightarrow> bool" where
  "is_space c = (c \<in> set [CHR 0x09, CHR 0x0A, CHR 0x0B, CHR 0x0C, CHR 0x0D,
                            CHR 0x1C, CHR 0x1D, CHR 0x1E, CHR 0x1F, CHR 0x20,
                            CHR 0x85, CHR 0xA0])"

definition float_space :: "char \<Rightarrow> bool" where
  "float_space c = (c \<in> set [CHR 0x09, CHR 0x0A, CHR 0x0B, CHR 0x0C, CHR 0x0D, CHR 0x20,
                               CHR 0x85, CHR 0xA0])"

definition lower :: "char \<Rightarrow> char" where
  "lower c = (case map_of (zip ''ABCDEFGHIJKLMNOPQRSTUVWXYZ'' ''abcdefghijklmnopqrstuvwxyz'') c of
                None \<Rightarrow> c | Some d \<Rightarrow> d)"

text \<open>The anchor \<open>$\<close> (no MULTILINE flag): the end of the string, or just before a
  newline that is the last character.\<close>

definition dollar :: "string \<Rightarrow> bool" where
  "dollar r = (r = [] \<or> r = [CHR 0x0A])"

text \<open>
  \<open>angle_re = re.compile(r"^(M?)R(\d+)(?:\.\d+)?$")\<close>, applied with \<open>re.match\<close>.
  The result is the pair of groups 1 and 2, or \<open>None\<close> when there is no match. Every
  repetition is followed by a character outside its class (or by the anchor), so the
  greedy choice is the only one that can match. \<open>angle_re_tail\<close> is the pattern
  after group 1, which is \<open>g1\<close>.
\<close>

definition angle_re_tail :: "string \<Rightarrow> string \<Rightarrow> (string \<times> string) option" where
  "angle_re_tail g1 r1 =
     (case r1 of
        [] \<Rightarrow> None
      | c # r2 \<Rightarrow>
          if c \<noteq> CHR ''R'' then None
          else let g2 = takeWhile is_digit r2; r3 = dropWhile is_digit r2
               in if g2 = [] then None
                  else (case r3 of
                          [] \<Rightarrow> Some (g1, g2)
                        | d # r4 \<Rightarrow>
                            if d = CHR ''.''
                            then (if takeWhile is_digit r4 \<noteq> [] \<and> dollar (dropWhile is_digit r4)
                                  then Some (g1, g2) else None)
                            else (if dollar r3 then Some (g1, g2) else None)))"

definition angle_re :: "string \<Rightarrow> (string \<times> string) option" where
  "angle_re s =
     (case s of
        [] \<Rightarrow> angle_re_tail '''' s
      | c # r \<Rightarrow> if c = CHR ''M'' then angle_re_tail ''M'' r else angle_re_tail '''' s)"

text \<open>
  \<open>prefix_re = re.compile(r"\s*([A-Za-z]+)\s*\d+\s*$")\<close>, applied with \<open>re.match\<close>.
  The result is group 1, or \<open>None\<close> when there is no match. The trailing \<open>\s*\<close>
  takes a final newline too, so \<open>$\<close> is the end of the string here.
\<close>

definition prefix_re :: "string \<Rightarrow> string option" where
  "prefix_re s =
     (let r1 = dropWhile is_space s;
          g1 = takeWhile is_alpha r1; r2 = dropWhile is_alpha r1;
          r3 = dropWhile is_space r2;
          ds = takeWhile is_digit r3; r4 = dropWhile is_digit r3;
          r5 = dropWhile is_space r4
      in if g1 \<noteq> [] \<and> ds \<noteq> [] \<and> r5 = [] then Some g1 else None)"

section \<open>Numbers\<close>

text \<open>
  A Python \<open>float\<close> is a binary64 number of IEEE 754: \<open>Fin r\<close> is the finite float of
  the value \<open>r\<close>, and \<open>PInf\<close>, \<open>NInf\<close> and \<open>NaN\<close> are the two infinities and the
  value that is no number. The two zeros are one value, \<open>Fin 0\<close>: the program compares,
  adds and multiplies floats and divides them by constants, which does not tell the
  zeros apart.

  \<open>rnd x\<close> is the float nearest to the real \<open>x\<close>, the even one of two that are equally
  near, and an infinity when the nearest number of 53 bits is \<open>2 ^ 1024\<close> or beyond.
  \<open>expo x\<close> is the exponent of \<open>x\<close>, the \<open>e\<close> with \<open>2 ^ e \<le> \<bar>x\<bar> < 2 ^ (e + 1)\<close>; the
  floats between these bounds are the multiples of \<open>2 ^ (e - 52)\<close>, and those below
  \<open>2 ^ - 1022\<close> are the multiples of \<open>2 ^ - 1074\<close>.
\<close>

datatype pyfloat = Fin real | PInf | NInf | NaN

definition pow2 :: "int \<Rightarrow> real" where
  "pow2 k = (if 0 \<le> k then 2 ^ nat k else 1 / 2 ^ nat (- k))"

definition expo :: "real \<Rightarrow> int" where
  "expo x =
     (if 1 \<le> \<bar>x\<bar> then bitlen \<lfloor>\<bar>x\<bar>\<rfloor> - 1
      else let k = bitlen \<lfloor>1 / \<bar>x\<bar>\<rfloor> in if \<bar>x\<bar> * 2 ^ nat (k - 1) = 1 then 1 - k else - k)"

definition round_even :: "real \<Rightarrow> int" where
  "round_even q =
     (let f = \<lfloor>q\<rfloor>; r = q - of_int f
      in if r < 1 / 2 then f else if 1 / 2 < r then f + 1 else if even f then f else f + 1)"

definition rnd :: "real \<Rightarrow> pyfloat" where
  "rnd x =
     (if x = 0 then Fin 0
      else let ulp = pow2 (max (expo x) (- 1022) - 52);
               y = of_int (round_even (\<bar>x\<bar> / ulp)) * ulp
           in if 2 ^ 1024 \<le> y then (if 0 < x then PInf else NInf)
              else Fin (if 0 < x then y else - y))"

definition digit_val :: "char \<Rightarrow> nat" where
  "digit_val c = of_char c - 48"

definition decimal :: "string \<Rightarrow> nat" where
  "decimal ds = foldl (\<lambda>n c. 10 * n + digit_val c) 0 ds"

text \<open>\<open>digitpart ::= digit (["_"] digit)*\<close> of the grammar \<open>float()\<close> accepts.\<close>

fun digitpart :: "string \<Rightarrow> bool" where
  "digitpart [] = False"
| "digitpart [c] = is_digit c"
| "digitpart (c # d # r) =
     (is_digit c \<and> (if d = CHR ''_'' then digitpart r else digitpart (d # r)))"

definition digits_of :: "string \<Rightarrow> string" where
  "digits_of s = filter is_digit s"

text \<open>\<open>number ::= [digitpart] "." digitpart | digitpart ["."]\<close>, with its value.\<close>

definition number :: "string \<Rightarrow> real option" where
  "number s =
     (let ip = takeWhile (\<lambda>c. c \<noteq> CHR ''.'') s; r = dropWhile (\<lambda>c. c \<noteq> CHR ''.'') s
      in case r of
           [] \<Rightarrow> if digitpart ip then Some (of_nat (decimal (digits_of ip))) else None
         | _ # fp \<Rightarrow>
             if (ip = [] \<or> digitpart ip) \<and> (fp = [] \<or> digitpart fp) \<and> \<not> (ip = [] \<and> fp = [])
             then Some (of_nat (decimal (digits_of (ip @ fp))) / 10 ^ length (digits_of fp))
             else None)"

text \<open>\<open>exponent ::= ("e" | "E") [sign] digitpart\<close>: the text after the marker.\<close>

definition exponent :: "string \<Rightarrow> int option" where
  "exponent s =
     (case s of
        [] \<Rightarrow> None
      | c # r \<Rightarrow>
          if c = CHR ''-'' then (if digitpart r then Some (- int (decimal (digits_of r))) else None)
          else if c = CHR ''+'' then (if digitpart r then Some (int (decimal (digits_of r))) else None)
          else (if digitpart s then Some (int (decimal (digits_of s))) else None))"

definition is_e :: "char \<Rightarrow> bool" where
  "is_e c = (c = CHR ''e'' \<or> c = CHR ''E'')"

definition floatnumber :: "string \<Rightarrow> real option" where
  "floatnumber s =
     (let m = takeWhile (\<lambda>c. \<not> is_e c) s; r = dropWhile (\<lambda>c. \<not> is_e c) s
      in case number m of
           None \<Rightarrow> None
         | Some v \<Rightarrow>
             (case r of
                [] \<Rightarrow> Some v
              | _ # x \<Rightarrow>
                  (case exponent x of
                     None \<Rightarrow> None
                   | Some k \<Rightarrow> Some (if 0 \<le> k then v * 10 ^ nat k else v / 10 ^ nat (- k)))))"

definition strip :: "string \<Rightarrow> string" where
  "strip s = rev (dropWhile float_space (rev (dropWhile float_space s)))"

text \<open>
  The builtin \<open>float(s)\<close> on a string: \<open>None\<close> is \<open>ValueError\<close>. White space around
  the text is dropped, then an optional sign, then \<open>inf\<close>, \<open>infinity\<close> or \<open>nan\<close> in any
  case, or a decimal number with an optional exponent. The result is the float nearest
  to the number written, so a number too large gives an infinity and one too small
  gives zero.
\<close>

definition py_float :: "string \<Rightarrow> pyfloat option" where
  "py_float s =
     (let t = strip s;
          neg = (t \<noteq> [] \<and> hd t = CHR ''-'');
          u = (if t \<noteq> [] \<and> (hd t = CHR ''-'' \<or> hd t = CHR ''+'') then tl t else t);
          l = map lower u
      in if l = ''inf'' \<or> l = ''infinity'' then Some (if neg then NInf else PInf)
         else if l = ''nan'' then Some NaN
         else (case floatnumber u of
                 None \<Rightarrow> None
               | Some v \<Rightarrow> Some (rnd (if neg then - v else v))))"

text \<open>The comparison \<open><\<close> of floats; every comparison with \<open>nan\<close> is false.\<close>

fun py_lt :: "pyfloat \<Rightarrow> pyfloat \<Rightarrow> bool" where
  "py_lt NaN _ = False"
| "py_lt _ NaN = False"
| "py_lt (Fin a) (Fin b) = (a < b)"
| "py_lt NInf NInf = False"
| "py_lt NInf _ = True"
| "py_lt _ NInf = False"
| "py_lt PInf _ = False"
| "py_lt _ PInf = True"

text \<open>
  The builtins \<open>min(a, b, c)\<close> and \<open>max(a, b, c)\<close>: the first argument is the
  candidate, and a later one replaces it when it is smaller (larger).
\<close>

definition py_min :: "pyfloat \<Rightarrow> pyfloat \<Rightarrow> pyfloat \<Rightarrow> pyfloat" where
  "py_min a b c = (let m = (if py_lt b a then b else a) in if py_lt c m then c else m)"

definition py_max :: "pyfloat \<Rightarrow> pyfloat \<Rightarrow> pyfloat \<Rightarrow> pyfloat" where
  "py_max a b c = (let m = (if py_lt a b then b else a) in if py_lt m c then c else m)"

text \<open>Subtraction of floats: the exact difference, rounded.\<close>

fun py_sub :: "pyfloat \<Rightarrow> pyfloat \<Rightarrow> pyfloat" where
  "py_sub NaN _ = NaN"
| "py_sub _ NaN = NaN"
| "py_sub (Fin a) (Fin b) = rnd (a - b)"
| "py_sub PInf PInf = NaN"
| "py_sub NInf NInf = NaN"
| "py_sub PInf _ = PInf"
| "py_sub NInf _ = NInf"
| "py_sub _ PInf = NInf"
| "py_sub _ NInf = PInf"

section \<open>The document tree\<close>

text \<open>
  The tree \<open>lxml\<close> returns: an element has a tag, attributes and child elements. Text
  and comments play no part in the program.
\<close>

datatype xml = Element (tag: string) (attrib: "(string \<times> string) list") (children: "xml list")

definition get :: "xml \<Rightarrow> string \<Rightarrow> string option" where
  "get e name = map_of (attrib e) name"

text \<open>All elements of the tree in document order, the root first.\<close>

fun iter :: "xml \<Rightarrow> xml list" where
  "iter (Element t a cs) = Element t a cs # concat (map iter cs)"

text \<open>The XPath queries the program makes: \<open>//t\<close>, \<open>//t[@a='v']\<close> and the relative \<open>t\<close>.\<close>

definition xpath_tag :: "xml \<Rightarrow> string \<Rightarrow> xml list" where
  "xpath_tag doc t = filter (\<lambda>e. tag e = t) (iter doc)"

definition xpath_tag_attr :: "xml \<Rightarrow> string \<Rightarrow> string \<Rightarrow> string \<Rightarrow> xml list" where
  "xpath_tag_attr doc t a v = filter (\<lambda>e. tag e = t \<and> get e a = Some v) (iter doc)"

definition xpath_child :: "xml \<Rightarrow> string \<Rightarrow> xml list" where
  "xpath_child e t = filter (\<lambda>c. tag c = t) (children e)"

section \<open>Errors\<close>

text \<open>
  The program raises \<open>Exception\<close> with a message. The constructors are the kinds of
  failure, with the part of the message that varies:
  \<^item> \<open>MissingLayer n\<close>: "Could not find n layer def";
  \<^item> \<open>MalformedBoard\<close>: "Error processing dimension layer wires";
  \<^item> \<open>MissingAttribute n\<close>: "Expecting attribute 'n'", and "Component without name",
    "Component without value", "Component without package", "Could not get pad layer"
    for \<open>n\<close> = name, value, package, layer;
  \<^item> \<open>BadAttribute n\<close>: "Non-float value for attribute 'n'";
  \<^item> \<open>UnresolvedPackage\<close>: "Could not find package";
  \<^item> \<open>BadAngle\<close>: "Could not parse angle";
  \<^item> \<open>ValueError\<close>: a \<open>float()\<close> that fails outside \<open>getfloat\<close>;
  \<^item> \<open>XPathError\<close>: an error that \<open>lxml\<close> raises when it evaluates an XPath expression.
\<close>

datatype error =
    MissingLayer string
  | MalformedBoard
  | MissingAttribute string
  | BadAttribute string
  | UnresolvedPackage
  | BadAngle
  | ValueError
  | XPathError

definition getfloat :: "xml \<Rightarrow> string \<Rightarrow> error + pyfloat" where
  "getfloat elem name =
     (case get elem name of
        None \<Rightarrow> Inl (MissingAttribute name)
      | Some f \<Rightarrow>
          (case py_float f of
             None \<Rightarrow> Inl (BadAttribute name)
           | Some v \<Rightarrow> Inr v))"

text \<open>
  Lines 138 to 142 and 165 to 168 of \<open>get_board_info\<close>: the \<open>rot\<close> attribute of an
  element gives the angle and the mirror flag, that of a pad gives the angle only.
\<close>

definition element_rot :: "string \<Rightarrow> error + (pyfloat \<times> bool)" where
  "element_rot rot =
     (case angle_re rot of
        None \<Rightarrow> Inl BadAngle
      | Some (g1, g2) \<Rightarrow>
          (case py_float g2 of
             None \<Rightarrow> Inl ValueError
           | Some eangle \<Rightarrow> Inr (eangle, g1 = ''M'')))"

definition pad_rot :: "string \<Rightarrow> error + pyfloat" where
  "pad_rot rot =
     (case angle_re rot of
        None \<Rightarrow> Inl BadAngle
      | Some (g1, g2) \<Rightarrow>
          (case py_float g2 of
             None \<Rightarrow> Inl ValueError
           | Some pangle \<Rightarrow> Inr pangle))"

text \<open>
  Line 123: the query \<open>"//package[@name='%s']" % package_name\<close>. The name is pasted
  between two apostrophes. When it has no apostrophe it is the string literal of a
  well-formed expression, which selects the \<open>package\<close> elements with that name. When it
  has one, the literal ends there and the rest of the name is read as XPath: the
  expression may be ill-formed, or well-formed with another meaning. What \<open>lxml\<close>
  answers then, on a document and the text of the expression, is the parameter
  \<open>lx\<close> of the extractor.
\<close>

type_synonym xpath_eval = "xml \<Rightarrow> string \<Rightarrow> error + xml list"

definition package_xpath :: "string \<Rightarrow> string" where
  "package_xpath package_name =
     ''//package[@name='' @ [CHR 0x27] @ package_name @ [CHR 0x27] @ '']''"

definition find_package :: "xpath_eval \<Rightarrow> xml \<Rightarrow> string \<Rightarrow> error + xml list" where
  "find_package lx doc package_name =
     (if CHR 0x27 \<in> set package_name then lx doc (package_xpath package_name)
      else Inr (xpath_tag_attr doc ''package'' ''name'' package_name))"

section \<open>The board model\<close>

text \<open>
  The classes \<open>Pad\<close>, \<open>Component\<close> and \<open>BoardInfo\<close>, with the fields prefixed by the
  class. The type parameter is the type of numbers: \<open>pyfloat\<close> in the extractor, and
  \<open>real\<close> in the renderer, which is modelled on finite numbers.

  \<open>Component\<close> defines no \<open>__eq__\<close>, so two components are equal when they are the
  same object. The field \<open>oid\<close> is that identity: the position, among the \<open>element\<close>
  elements of the document, of the element the component was built from.

  A \<open>dict\<close> is an association list with distinct keys, in insertion order.
\<close>

record 'n Pad =
  pad_x :: 'n
  pad_y :: 'n
  pad_width :: 'n
  pad_height :: 'n
  pad_angle :: "'n option"

record 'n Component =
  oid :: nat
  comp_x :: 'n
  comp_y :: 'n
  comp_name :: string
  comp_prefix :: "string option"
  comp_value :: string
  comp_pads :: "'n Pad list"
  comp_angle :: "'n option"
  comp_layer :: "string option"

datatype layer_number = LayerStr string | LayerInt int

record 'n BoardInfo =
  bi_value_to_components :: "(string \<times> 'n Component list) list"
  bi_name_to_component :: "(string \<times> 'n Component) list"
  bi_layer_to_components :: "(string option \<times> 'n Component list) list"
  bi_layer_value_to_components :: "((string option \<times> string) \<times> 'n Component list) list"
  bi_components :: "'n Component list"
  bi_dimension_layer_number :: layer_number
  bi_top_layer :: string
  bi_bottom_layer :: string
  bi_xmin :: 'n
  bi_xmax :: 'n
  bi_ymin :: 'n
  bi_ymax :: 'n
  bi_width :: 'n
  bi_height :: 'n

text \<open>\<open>d[k] = v\<close>: an existing key keeps its place.\<close>

definition dict_set :: "('k \<times> 'v) list \<Rightarrow> 'k \<Rightarrow> 'v \<Rightarrow> ('k \<times> 'v) list" where
  "dict_set d k v =
     (if k \<in> fst ` set d then map (\<lambda>kv. if fst kv = k then (k, v) else kv) d
      else d @ [(k, v)])"

text \<open>\<open>if k in d: d[k].append(c) else: d[k] = [c]\<close>\<close>

definition dict_append :: "('k \<times> 'v list) list \<Rightarrow> 'k \<Rightarrow> 'v \<Rightarrow> ('k \<times> 'v list) list" where
  "dict_append d k c =
     (case map_of d k of
        Some cs \<Rightarrow> dict_set d k (cs @ [c])
      | None \<Rightarrow> dict_set d k [c])"

section \<open>The extractor\<close>

text \<open>The loop over the dimension wires (lines 90 to 94).\<close>

fun wires_bbox :: "xml list \<Rightarrow> pyfloat \<times> pyfloat \<times> pyfloat \<times> pyfloat
    \<Rightarrow> error + (pyfloat \<times> pyfloat \<times> pyfloat \<times> pyfloat)" where
  "wires_bbox [] b = Inr b"
| "wires_bbox (w # ws) (x_min, y_min, x_max, y_max) =
     (case getfloat w ''x1'' of Inl e \<Rightarrow> Inl e | Inr x1 \<Rightarrow>
      case getfloat w ''x2'' of Inl e \<Rightarrow> Inl e | Inr x2 \<Rightarrow>
      case getfloat w ''y1'' of Inl e \<Rightarrow> Inl e | Inr y1 \<Rightarrow>
      case getfloat w ''y2'' of Inl e \<Rightarrow> Inl e | Inr y2 \<Rightarrow>
        wires_bbox ws (py_min x_min x1 x2, py_min y_min y1 y2,
                       py_max x_max x1 x2, py_max y_max y1 y2))"

text \<open>
  Lines 158 to 174: the position, the angle and the size of one pad, read in that
  order.
\<close>

definition get_pad :: "xml \<Rightarrow> error + pyfloat Pad" where
  "get_pad p =
     (case getfloat p ''x'' of Inl e \<Rightarrow> Inl e | Inr x \<Rightarrow>
      case getfloat p ''y'' of Inl e \<Rightarrow> Inl e | Inr y \<Rightarrow>
      case (case get p ''rot'' of
              None \<Rightarrow> Inr None
            | Some rot \<Rightarrow> (case pad_rot rot of Inl e \<Rightarrow> Inl e | Inr a \<Rightarrow> Inr (Some a)))
      of Inl e \<Rightarrow> Inl e | Inr pangle \<Rightarrow>
      case getfloat p ''dx'' of Inl e \<Rightarrow> Inl e | Inr dx \<Rightarrow>
      case getfloat p ''dy'' of Inl e \<Rightarrow> Inl e | Inr dy \<Rightarrow>
        Inr \<lparr>pad_x = x, pad_y = y, pad_width = dx, pad_height = dy, pad_angle = pangle\<rparr>)"

text \<open>
  The loop over the pads of the package (lines 146 to 175). \<open>complayer\<close> is \<open>None\<close>
  until the first pad sets it.
\<close>

fun get_pads :: "pyfloat BoardInfo \<Rightarrow> bool \<Rightarrow> xml list \<Rightarrow> string option \<Rightarrow> pyfloat Pad list
    \<Rightarrow> error + (pyfloat Pad list \<times> string option)" where
  "get_pads bi mirrored [] complayer ourpads = Inr (ourpads, complayer)"
| "get_pads bi mirrored (p # ps) complayer ourpads =
     (case get p ''layer'' of
        None \<Rightarrow> Inl (MissingAttribute ''layer'')
      | Some l \<Rightarrow>
          let complayer' =
                (case complayer of
                   None \<Rightarrow>
                     Some (if mirrored
                           then (if l = bi_top_layer bi then bi_bottom_layer bi
                                 else if l = bi_bottom_layer bi then bi_top_layer bi
                                 else l)
                           else l)
                 | Some cl \<Rightarrow> Some cl)
          in case get_pad p of
               Inl e \<Rightarrow> Inl e
             | Inr op \<Rightarrow> get_pads bi mirrored ps complayer' (ourpads @ [op]))"

text \<open>
  The body of the loop over the elements (lines 106 to 186), for the element \<open>c\<close> at
  position \<open>i\<close>: an error, \<open>None\<close> when the element is skipped, or the component.
\<close>

definition get_component :: "xpath_eval \<Rightarrow> xml \<Rightarrow> pyfloat BoardInfo \<Rightarrow> nat \<Rightarrow> xml
    \<Rightarrow> error + pyfloat Component option" where
  "get_component lx doc bi i c =
     (case get c ''name'' of
        None \<Rightarrow> Inl (MissingAttribute ''name'')
      | Some compname \<Rightarrow>
        if compname = [] then Inl (MissingAttribute ''name'')
        else
          let compprefix = prefix_re compname in
          case get c ''value'' of
            None \<Rightarrow> Inl (MissingAttribute ''value'')
          | Some compvalue \<Rightarrow>
          case get c ''package'' of
            None \<Rightarrow> Inl (MissingAttribute ''package'')
          | Some package_name \<Rightarrow>
          case find_package lx doc package_name of
            Inl e \<Rightarrow> Inl e
          | Inr [] \<Rightarrow> Inl UnresolvedPackage
          | Inr (package0 # _) \<Rightarrow>
          let ppads = xpath_child package0 ''smd'' in
          if ppads = [] then Inr None
          else
          case getfloat c ''x'' of Inl e \<Rightarrow> Inl e | Inr compx \<Rightarrow>
          case getfloat c ''y'' of Inl e \<Rightarrow> Inl e | Inr compy \<Rightarrow>
          case (case get c ''rot'' of
                  None \<Rightarrow> Inr (None, False)
                | Some rot \<Rightarrow>
                    (case element_rot rot of
                       Inl e \<Rightarrow> Inl e
                     | Inr (a, m) \<Rightarrow> Inr (Some a, m)))
          of Inl e \<Rightarrow> Inl e | Inr (eangle, mirrored) \<Rightarrow>
          case get_pads bi mirrored ppads None [] of
            Inl e \<Rightarrow> Inl e
          | Inr (ourpads, complayer) \<Rightarrow>
              Inr (Some \<lparr>oid = i, comp_x = compx, comp_y = compy, comp_name = compname,
                         comp_prefix = compprefix, comp_value = compvalue,
                         comp_pads = ourpads, comp_angle = eangle,
                         comp_layer = complayer\<rparr>))"

text \<open>Lines 189 to 203: the component enters the four indices.\<close>

definition add_to_indices :: "pyfloat BoardInfo \<Rightarrow> pyfloat Component \<Rightarrow> pyfloat BoardInfo" where
  "add_to_indices bi com =
     bi\<lparr>bi_name_to_component := dict_set (bi_name_to_component bi) (comp_name com) com,
        bi_value_to_components := dict_append (bi_value_to_components bi) (comp_value com) com,
        bi_layer_to_components := dict_append (bi_layer_to_components bi) (comp_layer com) com,
        bi_layer_value_to_components :=
          dict_append (bi_layer_value_to_components bi) (comp_layer com, comp_value com) com\<rparr>"

text \<open>The loop over the elements (line 105), from position \<open>i\<close> on.\<close>

fun get_components :: "xpath_eval \<Rightarrow> xml \<Rightarrow> xml list \<Rightarrow> nat \<Rightarrow> pyfloat BoardInfo
    \<Rightarrow> pyfloat Component list \<Rightarrow> error + (pyfloat BoardInfo \<times> pyfloat Component list)" where
  "get_components lx doc [] i bi ourcomps = Inr (bi, ourcomps)"
| "get_components lx doc (c # cs) i bi ourcomps =
     (case get_component lx doc bi i c of
        Inl e \<Rightarrow> Inl e
      | Inr None \<Rightarrow> get_components lx doc cs (Suc i) bi ourcomps
      | Inr (Some com) \<Rightarrow>
          get_components lx doc cs (Suc i) (add_to_indices bi com) (ourcomps @ [com]))"

text \<open>
  \<open>get_board_info\<close>, from the parsed document on (\<open>ET.parse\<close> is outside the model).
\<close>

definition get_board_info :: "xpath_eval \<Rightarrow> xml \<Rightarrow> error + pyfloat BoardInfo" where
  "get_board_info lx doc =
     (case xpath_tag_attr doc ''layer'' ''name'' ''Dimension'' of
        [] \<Rightarrow> Inl (MissingLayer ''Dimension'')
      | dl0 # _ \<Rightarrow>
      case xpath_tag_attr doc ''layer'' ''name'' ''Top'' of
        [] \<Rightarrow> Inl (MissingLayer ''Top'')
      | tl0 # _ \<Rightarrow>
      case xpath_tag_attr doc ''layer'' ''name'' ''Bottom'' of
        [] \<Rightarrow> Inl (MissingLayer ''Bottom'')
      | bl0 # _ \<Rightarrow>
      let ws = xpath_tag_attr doc ''wire'' ''layer'' ''20'' in
      if length ws < 2 then Inl MalformedBoard
      else
      case wires_bbox ws (PInf, PInf, NInf, NInf) of
        Inl e \<Rightarrow> Inl e
      | Inr (x_min, y_min, x_max, y_max) \<Rightarrow>
      let bi = \<lparr>bi_value_to_components = [], bi_name_to_component = [],
                bi_layer_to_components = [], bi_layer_value_to_components = [],
                bi_components = [],
                bi_dimension_layer_number =
                  (case get dl0 ''number'' of None \<Rightarrow> LayerInt 20 | Some n \<Rightarrow> LayerStr n),
                bi_top_layer = (case get tl0 ''number'' of None \<Rightarrow> ''1'' | Some n \<Rightarrow> n),
                bi_bottom_layer = (case get bl0 ''number'' of None \<Rightarrow> ''16'' | Some n \<Rightarrow> n),
                bi_xmin = x_min, bi_xmax = x_max, bi_ymin = y_min, bi_ymax = y_max,
                bi_width = py_sub x_max x_min, bi_height = py_sub y_max y_min\<rparr>
      in
      case get_components lx doc (xpath_tag doc ''element'') 0 bi [] of
        Inl e \<Rightarrow> Inl e
      | Inr (bi', ourcomps) \<Rightarrow> Inr (bi'\<lparr>bi_components := ourcomps\<rparr>))"

section \<open>The pad renderer and the layout driver\<close>

text \<open>
  The canvas is the list of the operations made on it, the oldest first. A path is the
  list of its points (\<open>moveTo\<close> the first, \<open>lineTo\<close> the others); \<open>DrawPath\<close> has the
  \<open>fill\<close> and \<open>stroke\<close> flags.
\<close>

datatype color = lightgrey | black

definition NORMAL_COLOR :: color where
  "NORMAL_COLOR = lightgrey"

definition HIGHLIGHT_COLOR :: color where
  "HIGHLIGHT_COLOR = black"

datatype canvas_op =
    SetPageSize "real \<times> real"
  | SetFont string real
  | DrawCentredString real real string
  | SetFillColor color
  | DrawPath "(real \<times> real) list" bool bool
  | ShowPage

definition rotate_coords :: "real \<times> real \<Rightarrow> real option \<Rightarrow> real \<times> real" where
  "rotate_coords xy angle =
     (case angle of
        None \<Rightarrow> xy
      | Some a \<Rightarrow>
          let ang = (a / 180) * pi; x = fst xy; y = snd xy;
              x2 = (x * cos ang) - (y * sin ang);
              y2 = (x * sin ang) + (y * cos ang)
          in (x2, y2))"

definition pad_corners :: "real BoardInfo \<Rightarrow> real Component \<Rightarrow> real Pad \<Rightarrow> (real \<times> real) list" where
  "pad_corners bi c p =
     (let corners = [(- (pad_width p / 2), - (pad_height p / 2)),
                     (- (pad_width p / 2), pad_height p / 2),
                     (pad_width p / 2, pad_height p / 2),
                     (pad_width p / 2, - (pad_height p / 2))];
          corners = map (\<lambda>cr. rotate_coords cr (pad_angle p)) corners;
          corners = map (\<lambda>cr. (fst cr + pad_x p, snd cr + pad_y p)) corners;
          corners = map (\<lambda>cr. rotate_coords (fst cr, snd cr) (comp_angle c)) corners;
          corners = map (\<lambda>cr. (fst cr + comp_x c, snd cr + comp_y c)) corners
      in map (\<lambda>cr. (fst cr - bi_xmin bi, snd cr - bi_ymin bi)) corners)"

definition render_component_pad :: "canvas_op list \<Rightarrow> real BoardInfo \<Rightarrow> real Component \<Rightarrow> real Pad
    \<Rightarrow> bool \<Rightarrow> canvas_op list" where
  "render_component_pad cv bi c p highlight =
     cv @ [SetFillColor (if highlight then HIGHLIGHT_COLOR else NORMAL_COLOR),
           DrawPath (pad_corners bi c p) True False]"

definition render_components :: "canvas_op list \<Rightarrow> real BoardInfo \<Rightarrow> real Component list
    \<Rightarrow> real Component list \<Rightarrow> canvas_op list" where
  "render_components cv bi all_cs val_cs =
     (let cv1 = foldl (\<lambda>cv c. if c \<in> set val_cs then cv
                               else foldl (\<lambda>cv p. render_component_pad cv bi c p False) cv (comp_pads c))
                      cv all_cs
      in foldl (\<lambda>cv c. foldl (\<lambda>cv p. render_component_pad cv bi c p True) cv (comp_pads c))
               cv1 val_cs)"

fun join :: "string \<Rightarrow> string list \<Rightarrow> string" where
  "join sep [] = []"
| "join sep [s] = s"
| "join sep (s # t # r) = s @ sep @ join sep (t # r)"

definition layout_by_same_value :: "canvas_op list \<Rightarrow> real BoardInfo \<Rightarrow> string \<Rightarrow> canvas_op list" where
  "layout_by_same_value cv bi layer =
     (let headingspace = bi_height bi / 10;
          cwidth = bi_width bi;
          cheight = bi_height bi + headingspace;
          cv0 = cv @ [SetPageSize (cwidth, cheight)];
          values = map fst (bi_value_to_components bi)
      in foldl (\<lambda>cv val.
           case map_of (bi_layer_value_to_components bi) (Some layer, val) of
             None \<Rightarrow> cv
           | Some val_cs \<Rightarrow>
               let prefixes = foldl (\<lambda>d vc. dict_append d (comp_prefix vc) vc) [] val_cs;
                   all_cs = (case map_of (bi_layer_to_components bi) (Some layer) of
                               None \<Rightarrow> [] | Some cs \<Rightarrow> cs)
               in foldl (\<lambda>cv prefix_cs.
                    let names = sort (map comp_name prefix_cs);
                        cv = cv @ [SetFont ''Helvetica'' (headingspace / 5),
                                   DrawCentredString (cwidth / 2) (cheight - (headingspace / 2))
                                     (''V = '' @ val @ '', N = '' @ join '','' names)];
                        cv = render_components cv bi all_cs val_cs
                    in cv @ [ShowPage])
                  cv (map snd prefixes))
         cv0 values)"

section \<open>Specification-side definitions\<close>


text \<open>
  The shape of a name with a prefix \<open>p\<close>: white space, the letters \<open>p\<close>, white
  space, digits, white space; each white space may be empty.
\<close>

definition name_with_prefix :: "string \<Rightarrow> string \<Rightarrow> bool" where
  "name_with_prefix p s =
     (\<exists>w1 w2 ds w3. s = w1 @ p @ w2 @ ds @ w3 \<and>
        list_all is_space w1 \<and> p \<noteq> [] \<and> list_all is_alpha p \<and>
        list_all is_space w2 \<and> ds \<noteq> [] \<and> list_all is_digit ds \<and>
        list_all is_space w3)"

text \<open>
  The pipeline of the pad renderer, in the words of the specification. A rotation of
  the plane about the origin, counter-clockwise by \<open>theta\<close> radians, is the
  multiplication by \<open>cis theta\<close> of the complex plane; an angle is in degrees, and an
  absent angle leaves the point as it is. \<open>page_corner bi c p sx sy\<close> is the corner of
  the pad \<open>p\<close> with the signs \<open>sx\<close>, \<open>sy\<close>, rotated by the angle of the pad, moved by
  the position of the pad, rotated by the angle of the component, moved by the position
  of the component, and moved by \<open>(- xmin, - ymin)\<close>.
\<close>

definition rotate_ccw :: "real \<Rightarrow> real \<times> real \<Rightarrow> real \<times> real" where
  "rotate_ccw theta xy = (let z = cis theta * Complex (fst xy) (snd xy) in (Re z, Im z))"




section \<open>Example boards\<close>

text \<open>
  A board whose \<open>Dimension\<close> layer has the number 48, with the four wires of the
  outline of a 100 by 50 rectangle on that layer, and no element.
\<close>

definition board_dimension_48 :: xml where
  "board_dimension_48 =
     Element ''eagle'' []
       [Element ''layer'' [(''number'', ''1''), (''name'', ''Top'')] [],
        Element ''layer'' [(''number'', ''16''), (''name'', ''Bottom'')] [],
        Element ''layer'' [(''number'', ''48''), (''name'', ''Dimension'')] [],
        Element ''wire'' [(''x1'', ''0''), (''y1'', ''0''), (''x2'', ''100''), (''y2'', ''0''),
                          (''layer'', ''48'')] [],
        Element ''wire'' [(''x1'', ''100''), (''y1'', ''0''), (''x2'', ''100''), (''y2'', ''50''),
                          (''layer'', ''48'')] [],
        Element ''wire'' [(''x1'', ''100''), (''y1'', ''50''), (''x2'', ''0''), (''y2'', ''50''),
                          (''layer'', ''48'')] [],
        Element ''wire'' [(''x1'', ''0''), (''y1'', ''50''), (''x2'', ''0''), (''y2'', ''0''),
                          (''layer'', ''48'')] []]"

text \<open>
  The information of a 100 by 50 board with two components of the value \<open>10k\<close> on the
  layer 1, \<open>R1\<close> and \<open>C1\<close>, of one pad each: one value, two prefixes.
\<close>

definition comp_R1 :: "real Component" where
  "comp_R1 =
     \<lparr>oid = 0, comp_x = 10, comp_y = 10, comp_name = ''R1'', comp_prefix = Some ''R'',
      comp_value = ''10k'',
      comp_pads = [\<lparr>pad_x = 0, pad_y = 0, pad_width = 2, pad_height = 1, pad_angle = None\<rparr>],
      comp_angle = None, comp_layer = Some ''1''\<rparr>"

definition comp_C1 :: "real Component" where
  "comp_C1 =
     \<lparr>oid = 1, comp_x = 30, comp_y = 20, comp_name = ''C1'', comp_prefix = Some ''C'',
      comp_value = ''10k'',
      comp_pads = [\<lparr>pad_x = 0, pad_y = 0, pad_width = 2, pad_height = 1, pad_angle = None\<rparr>],
      comp_angle = None, comp_layer = Some ''1''\<rparr>"

definition board_R1_C1 :: "real BoardInfo" where
  "board_R1_C1 =
     \<lparr>bi_value_to_components = [(''10k'', [comp_R1, comp_C1])],
      bi_name_to_component = [(''R1'', comp_R1), (''C1'', comp_C1)],
      bi_layer_to_components = [(Some ''1'', [comp_R1, comp_C1])],
      bi_layer_value_to_components = [((Some ''1'', ''10k''), [comp_R1, comp_C1])],
      bi_components = [comp_R1, comp_C1],
      bi_dimension_layer_number = LayerStr ''20'',
      bi_top_layer = ''1'', bi_bottom_layer = ''16'',
      bi_xmin = 0, bi_xmax = 100, bi_ymin = 0, bi_ymax = 50,
      bi_width = 100, bi_height = 50\<rparr>"

text \<open>The paths of the single pads of \<open>R1\<close> and \<open>C1\<close> on the page.\<close>

definition path_R1 :: "(real \<times> real) list" where
  "path_R1 = [(9, 19 / 2), (9, 21 / 2), (11, 21 / 2), (11, 19 / 2)]"

definition path_C1 :: "(real \<times> real) list" where
  "path_C1 = [(29, 39 / 2), (29, 41 / 2), (31, 41 / 2), (31, 39 / 2)]"

text \<open>
  What the loop over the elements is expected to compute: \<open>built lx doc bi i cs\<close> is the
  list of the components built from the elements \<open>cs\<close>, which are at the positions
  \<open>i\<close>, \<open>i + 1\<close>, ... of the document; a skipped element gives none.
\<close>

fun built :: "xpath_eval \<Rightarrow> xml \<Rightarrow> pyfloat BoardInfo \<Rightarrow> nat \<Rightarrow> xml list
    \<Rightarrow> pyfloat Component list" where
  "built lx doc bi i [] = []"
| "built lx doc bi i (c # cs) =
     (case get_component lx doc bi i c of
        Inr (Some com) \<Rightarrow> com # built lx doc bi (Suc i) cs
      | _ \<Rightarrow> built lx doc bi (Suc i) cs)"

text \<open>
  The package of an element has no pad: the element names a package, the document
  has a package of that name, and the first one has no \<open>smd\<close> child.
\<close>

definition package_without_pads :: "xml \<Rightarrow> xml \<Rightarrow> bool" where
  "package_without_pads doc c =
     (\<exists>package_name package0 others.
        get c ''package'' = Some package_name \<and>
        xpath_tag_attr doc ''package'' ''name'' package_name = package0 # others \<and>
        xpath_child package0 ''smd'' = [])"

text \<open>No component built from the element at the position \<open>j\<close> is in the list of the
  components or in one of the four indices.\<close>

definition absent :: "nat \<Rightarrow> pyfloat BoardInfo \<Rightarrow> bool" where
  "absent j bi =
     (j \<notin> oid ` set (bi_components bi) \<and>
      j \<notin> oid ` snd ` set (bi_name_to_component bi) \<and>
      j \<notin> oid ` (\<Union>(set ` snd ` set (bi_value_to_components bi))) \<and>
      j \<notin> oid ` (\<Union>(set ` snd ` set (bi_layer_to_components bi))) \<and>
      j \<notin> oid ` (\<Union>(set ` snd ` set (bi_layer_value_to_components bi))))"

text \<open>
  The four indices agree with the list of the components: the keys of each index are
  distinct; a component is exactly once in the list and exactly once in the bucket of
  its value, of its layer and of its layer and value; every component of a bucket, and
  every component the index of the names gives, is in the list; and the index of the
  names gives, for a name, the last component of the list with that name.
\<close>

definition indices_consistent :: "pyfloat BoardInfo \<Rightarrow> bool" where
  "indices_consistent bi =
     (distinct (bi_components bi) \<and>
      distinct (map fst (bi_value_to_components bi)) \<and>
      distinct (map fst (bi_layer_to_components bi)) \<and>
      distinct (map fst (bi_layer_value_to_components bi)) \<and>
      distinct (map fst (bi_name_to_component bi)) \<and>
      (\<forall>c \<in> set (bi_components bi).
         (\<exists>cs. (comp_value c, cs) \<in> set (bi_value_to_components bi) \<and> count_list cs c = 1) \<and>
         (\<exists>cs. (comp_layer c, cs) \<in> set (bi_layer_to_components bi) \<and> count_list cs c = 1) \<and>
         (\<exists>cs. ((comp_layer c, comp_value c), cs) \<in> set (bi_layer_value_to_components bi) \<and>
               count_list cs c = 1)) \<and>
      (\<forall>kcs \<in> set (bi_value_to_components bi). set (snd kcs) \<subseteq> set (bi_components bi)) \<and>
      (\<forall>kcs \<in> set (bi_layer_to_components bi). set (snd kcs) \<subseteq> set (bi_components bi)) \<and>
      (\<forall>kcs \<in> set (bi_layer_value_to_components bi). set (snd kcs) \<subseteq> set (bi_components bi)) \<and>
      (\<forall>nc \<in> set (bi_name_to_component bi). snd nc \<in> set (bi_components bi)) \<and>
      (\<forall>n. map_of (bi_name_to_component bi) n =
         (case filter (\<lambda>c. comp_name c = n) (bi_components bi) of
            [] \<Rightarrow> None
          | f # fs \<Rightarrow> Some (last (f # fs)))))"

text \<open>
  For an element \<open>c\<close> of the document: the pads of the package that the query for its
  package name selects, the nominal layer of the first of them, and whether its
  rotation descriptor has the mirror marker.
\<close>

definition package_pads :: "xpath_eval \<Rightarrow> xml \<Rightarrow> xml \<Rightarrow> xml list" where
  "package_pads lx doc c =
     (case get c ''package'' of
        None \<Rightarrow> []
      | Some package_name \<Rightarrow>
          (case find_package lx doc package_name of
             Inr (package0 # _) \<Rightarrow> xpath_child package0 ''smd''
           | _ \<Rightarrow> []))"

definition first_pad_layer :: "xpath_eval \<Rightarrow> xml \<Rightarrow> xml \<Rightarrow> string option" where
  "first_pad_layer lx doc c =
     (case package_pads lx doc c of [] \<Rightarrow> None | p # _ \<Rightarrow> get p ''layer'')"

definition is_mirrored :: "xml \<Rightarrow> bool" where
  "is_mirrored c =
     (case get c ''rot'' of
        None \<Rightarrow> False
      | Some rot \<Rightarrow> (case element_rot rot of Inl e \<Rightarrow> False | Inr (a, m) \<Rightarrow> m))"

text \<open>An \<open>lxml\<close> that finds a syntax error in every expression made from a name with an
  apostrophe. No name of the example boards has one.\<close>

definition lxml_rejects :: xpath_eval where
  "lxml_rejects doc expression = Inl XPathError"

text \<open>
  A board with the layers 1, 16 and 20, two wires of the outline, a package \<open>0402\<close> of
  two pads on the layer 1 (the second one turned by 90 degrees), a package \<open>0402B\<close> of one pad on the layer 16, a package
  \<open>HOLE\<close> without pads, a package \<open>TP\<close> of one pad on the layer 29, and five elements:
  \<open>R1\<close>; \<open>R2\<close>, which is mirrored; \<open>H1\<close>, whose package has no pad; \<open>C3\<close>, which is
  mirrored and has its pad on the layer 16; and \<open>T1\<close>, which is mirrored, has its pad on
  the layer 29 and has a fraction in its rotation descriptor. Then the pads and the
  components the extractor builds from it, and the information it returns.
\<close>

definition element_R1 :: xml where
  "element_R1 =
     Element ''element'' [(''name'', ''R1''), (''value'', ''10k''), (''package'', ''0402''),
                          (''x'', ''10''), (''y'', ''10'')] []"

definition element_R2 :: xml where
  "element_R2 =
     Element ''element'' [(''name'', ''R2''), (''value'', ''10k''), (''package'', ''0402''),
                          (''x'', ''30''), (''y'', ''20''), (''rot'', ''MR90'')] []"

definition element_H1 :: xml where
  "element_H1 =
     Element ''element'' [(''name'', ''H1''), (''value'', ''M3''), (''package'', ''HOLE''),
                          (''x'', ''5''), (''y'', ''5'')] []"

definition element_C3 :: xml where
  "element_C3 =
     Element ''element'' [(''name'', ''C3''), (''value'', ''1u''), (''package'', ''0402B''),
                          (''x'', ''40''), (''y'', ''25''), (''rot'', ''MR0'')] []"

definition element_T1 :: xml where
  "element_T1 =
     Element ''element'' [(''name'', ''T1''), (''value'', ''tp''), (''package'', ''TP''),
                          (''x'', ''50''), (''y'', ''5''), (''rot'', ''MR180.5'')] []"

definition package_0402 :: xml where
  "package_0402 =
     Element ''package'' [(''name'', ''0402'')]
       [Element ''smd'' [(''x'', ''-1''), (''y'', ''0''), (''dx'', ''1''), (''dy'', ''1''),
                         (''layer'', ''1'')] [],
        Element ''smd'' [(''x'', ''1''), (''y'', ''0''), (''dx'', ''1''), (''dy'', ''1''),
                         (''layer'', ''1''), (''rot'', ''R90'')] []]"

definition package_0402B :: xml where
  "package_0402B =
     Element ''package'' [(''name'', ''0402B'')]
       [Element ''smd'' [(''x'', ''0''), (''y'', ''0''), (''dx'', ''2''), (''dy'', ''1''),
                         (''layer'', ''16'')] []]"

definition package_HOLE :: xml where
  "package_HOLE = Element ''package'' [(''name'', ''HOLE'')] []"

definition package_TP :: xml where
  "package_TP =
     Element ''package'' [(''name'', ''TP'')]
       [Element ''smd'' [(''x'', ''0''), (''y'', ''0''), (''dx'', ''1''), (''dy'', ''1''),
                         (''layer'', ''29'')] []]"

definition board_example :: xml where
  "board_example =
     Element ''eagle'' []
       [Element ''layer'' [(''number'', ''1''), (''name'', ''Top'')] [],
        Element ''layer'' [(''number'', ''16''), (''name'', ''Bottom'')] [],
        Element ''layer'' [(''number'', ''20''), (''name'', ''Dimension'')] [],
        Element ''wire'' [(''x1'', ''0''), (''y1'', ''0''), (''x2'', ''100''), (''y2'', ''0''),
                          (''layer'', ''20'')] [],
        Element ''wire'' [(''x1'', ''100''), (''y1'', ''0''), (''x2'', ''100''), (''y2'', ''50''),
                          (''layer'', ''20'')] [],
        package_0402, package_0402B, package_HOLE, package_TP,
        element_R1, element_R2, element_H1, element_C3, element_T1]"

definition pads_0402 :: "pyfloat Pad list" where
  "pads_0402 =
     [\<lparr>pad_x = Fin (- 1), pad_y = Fin 0, pad_width = Fin 1, pad_height = Fin 1,
       pad_angle = None\<rparr>,
      \<lparr>pad_x = Fin 1, pad_y = Fin 0, pad_width = Fin 1, pad_height = Fin 1,
       pad_angle = Some (Fin 90)\<rparr>]"

definition pads_0402B :: "pyfloat Pad list" where
  "pads_0402B =
     [\<lparr>pad_x = Fin 0, pad_y = Fin 0, pad_width = Fin 2, pad_height = Fin 1,
       pad_angle = None\<rparr>]"

definition pads_TP :: "pyfloat Pad list" where
  "pads_TP =
     [\<lparr>pad_x = Fin 0, pad_y = Fin 0, pad_width = Fin 1, pad_height = Fin 1,
       pad_angle = None\<rparr>]"

definition built_R1 :: "pyfloat Component" where
  "built_R1 =
     \<lparr>oid = 0, comp_x = Fin 10, comp_y = Fin 10, comp_name = ''R1'', comp_prefix = Some ''R'',
      comp_value = ''10k'', comp_pads = pads_0402, comp_angle = None,
      comp_layer = Some ''1''\<rparr>"

definition built_R2 :: "pyfloat Component" where
  "built_R2 =
     \<lparr>oid = 1, comp_x = Fin 30, comp_y = Fin 20, comp_name = ''R2'', comp_prefix = Some ''R'',
      comp_value = ''10k'', comp_pads = pads_0402, comp_angle = Some (Fin 90),
      comp_layer = Some ''16''\<rparr>"

definition built_C3 :: "pyfloat Component" where
  "built_C3 =
     \<lparr>oid = 3, comp_x = Fin 40, comp_y = Fin 25, comp_name = ''C3'', comp_prefix = Some ''C'',
      comp_value = ''1u'', comp_pads = pads_0402B, comp_angle = Some (Fin 0),
      comp_layer = Some ''1''\<rparr>"

definition built_T1 :: "pyfloat Component" where
  "built_T1 =
     \<lparr>oid = 4, comp_x = Fin 50, comp_y = Fin 5, comp_name = ''T1'', comp_prefix = Some ''T'',
      comp_value = ''tp'', comp_pads = pads_TP, comp_angle = Some (Fin 180),
      comp_layer = Some ''29''\<rparr>"

definition info_example :: "pyfloat BoardInfo" where
  "info_example =
     \<lparr>bi_value_to_components =
        [(''10k'', [built_R1, built_R2]), (''1u'', [built_C3]), (''tp'', [built_T1])],
      bi_name_to_component =
        [(''R1'', built_R1), (''R2'', built_R2), (''C3'', built_C3), (''T1'', built_T1)],
      bi_layer_to_components =
        [(Some ''1'', [built_R1, built_C3]), (Some ''16'', [built_R2]), (Some ''29'', [built_T1])],
      bi_layer_value_to_components =
        [((Some ''1'', ''10k''), [built_R1]), ((Some ''16'', ''10k''), [built_R2]),
         ((Some ''1'', ''1u''), [built_C3]), ((Some ''29'', ''tp''), [built_T1])],
      bi_components = [built_R1, built_R2, built_C3, built_T1],
      bi_dimension_layer_number = LayerStr ''20'',
      bi_top_layer = ''1'', bi_bottom_layer = ''16'',
      bi_xmin = Fin 0, bi_xmax = Fin 100, bi_ymin = Fin 0, bi_ymax = Fin 50,
      bi_width = Fin 100, bi_height = Fin 50\<rparr>"

text \<open>
  A board with one element, \<open>H2\<close>, which has no value and whose package \<open>HOLE\<close> has no
  pad.
\<close>

definition element_H2 :: xml where
  "element_H2 =
     Element ''element'' [(''name'', ''H2''), (''package'', ''HOLE''), (''x'', ''5''), (''y'', ''5'')] []"

definition board_no_value :: xml where
  "board_no_value =
     Element ''eagle'' []
       [Element ''layer'' [(''number'', ''1''), (''name'', ''Top'')] [],
        Element ''layer'' [(''number'', ''16''), (''name'', ''Bottom'')] [],
        Element ''layer'' [(''number'', ''20''), (''name'', ''Dimension'')] [],
        Element ''wire'' [(''x1'', ''0''), (''y1'', ''0''), (''x2'', ''100''), (''y2'', ''0''),
                          (''layer'', ''20'')] [],
        Element ''wire'' [(''x1'', ''100''), (''y1'', ''0''), (''x2'', ''100''), (''y2'', ''50''),
                          (''layer'', ''20'')] [],
        Element ''package'' [(''name'', ''HOLE'')] [],
        element_H2]"

text \<open>The element a component was built from: the one at the position \<open>oid\<close>.\<close>

definition element_of :: "xml \<Rightarrow> pyfloat Component \<Rightarrow> xml" where
  "element_of doc com = xpath_tag doc ''element'' ! oid com"

text \<open>
  The reals that are floats: an integer of less than 53 bits times a power of two from
  \<open>2 ^ - 1074\<close> to \<open>2 ^ 971\<close>.
\<close>

definition representable :: "real \<Rightarrow> bool" where
  "representable x = (\<exists>m k. x = of_int m * pow2 k \<and> \<bar>m\<bar> < 2 ^ 53 \<and> - 1074 \<le> k \<and> k \<le> 971)"

section \<open>Properties of the numbers\<close>

lemma pow2_powi: "pow2 k = 2 powi k"
  by (simp add: pow2_def power_int_def field_simps)

lemma pow2_pos [simp]: "0 < pow2 k"
  by (simp add: pow2_powi)

lemma pow2_nz [simp]: "pow2 k \<noteq> 0"
  using pow2_pos[of k] by linarith

lemma pow2_nonneg [simp]: "0 \<le> pow2 k"
  using pow2_pos[of k] by linarith

lemma abs_pow2 [simp]: "\<bar>pow2 k\<bar> = pow2 k"
  using pow2_pos[of k] by linarith

lemma pow2_numeral: "pow2 (numeral n) = 2 ^ numeral n" "pow2 (- numeral n) = 1 / 2 ^ numeral n"
  "pow2 0 = 1" "pow2 1 = 2"
  by (simp_all add: pow2_def)

lemma pow2_add: "pow2 (a + b) = pow2 a * pow2 b"
  by (simp add: pow2_powi power_int_add)

lemma pow2_mono: "a \<le> b \<Longrightarrow> pow2 a \<le> pow2 b"
  by (simp add: pow2_powi power_int_increasing)

lemma pow2_strict_mono: "a < b \<Longrightarrow> pow2 a < pow2 b"
  by (simp add: pow2_powi power_int_strict_increasing)

lemma pow2_nat: "0 \<le> k \<Longrightarrow> pow2 k = 2 ^ nat k"
  by (simp add: pow2_def)

lemma expo_bounds:
  assumes "x \<noteq> 0"
  shows "pow2 (expo x) \<le> \<bar>x\<bar>" and "\<bar>x\<bar> < pow2 (expo x + 1)"
proof -
  have "pow2 (expo x) \<le> \<bar>x\<bar> \<and> \<bar>x\<bar> < pow2 (expo x + 1)"
  proof (cases "1 \<le> \<bar>x\<bar>")
    case True
    define n where "n = \<lfloor>\<bar>x\<bar>\<rfloor>"
    have n: "0 < n" using True by (simp add: n_def)
    have e: "expo x = bitlen n - 1" using True by (simp add: expo_def n_def)
    have b1: "1 \<le> bitlen n" using n by (simp add: bitlen_alt_def)
    from bitlen_bounds[OF n] have lo: "2 ^ nat (bitlen n - 1) \<le> n" and hi: "n < 2 ^ nat (bitlen n)"
      by simp_all
    have "real_of_int (2 ^ nat (bitlen n - 1)) \<le> real_of_int n" using lo by linarith
    also have "\<dots> \<le> \<bar>x\<bar>" by (simp add: n_def)
    finally have 1: "pow2 (bitlen n - 1) \<le> \<bar>x\<bar>" using b1 by (simp add: pow2_nat)
    have "n + 1 \<le> 2 ^ nat (bitlen n)" using hi by simp
    then have "real_of_int (n + 1) \<le> real_of_int (2 ^ nat (bitlen n))" by linarith
    moreover have "\<bar>x\<bar> < real_of_int (n + 1)" unfolding n_def by linarith
    ultimately have 2: "\<bar>x\<bar> < pow2 (bitlen n)" using b1 by (simp add: pow2_nat)
    show ?thesis using 1 2 by (simp add: e)
  next
    case False
    define a where "a = \<bar>x\<bar>"
    have a: "0 < a" "a < 1" using assms False by (simp_all add: a_def)
    define n where "n = \<lfloor>1 / a\<rfloor>"
    have "1 \<le> 1 / a" using a by simp
    then have n: "0 < n" by (simp add: n_def)
    define k where "k = bitlen n"
    have k1: "1 \<le> k" using n by (simp add: k_def bitlen_alt_def)
    from bitlen_bounds[OF n] have lo: "2 ^ nat (k - 1) \<le> n" and hi: "n < 2 ^ nat k"
      by (simp_all add: k_def)
    have "real_of_int (2 ^ nat (k - 1)) \<le> real_of_int n" using lo by linarith
    also have "\<dots> \<le> 1 / a" by (simp add: n_def)
    finally have 1: "2 ^ nat (k - 1) \<le> 1 / a" by simp
    then have u: "a * 2 ^ nat (k - 1) \<le> 1" using a by (simp add: field_simps)
    have "n + 1 \<le> 2 ^ nat k" using hi by simp
    then have "real_of_int (n + 1) \<le> real_of_int (2 ^ nat k)" by linarith
    moreover have "1 / a < real_of_int (n + 1)" unfolding n_def by linarith
    ultimately have "1 / a < 2 ^ nat k" by simp
    then have l: "1 < a * 2 ^ nat k" using a by (simp add: field_simps)
    have p1: "pow2 (1 - k) = 1 / 2 ^ nat (k - 1)"
      using k1 by (cases "k = 1") (simp_all add: pow2_def)
    have p0: "pow2 (- k) = 1 / 2 ^ nat k" using k1 by (simp add: pow2_def)
    have p2: "pow2 (2 - k) = 2 * pow2 (1 - k)"
      using pow2_add[of 1 "1 - k"] by (simp add: pow2_def)
    have e: "expo x = (if a * 2 ^ nat (k - 1) = 1 then 1 - k else - k)"
      using False by (simp add: expo_def a_def n_def k_def Let_def)
    show ?thesis
    proof (cases "a * 2 ^ nat (k - 1) = 1")
      case True
      then have "a = pow2 (1 - k)" by (simp add: p1 field_simps)
      then show ?thesis using e True p2 by (simp add: a_def[symmetric])
    next
      case False
      then have "a * 2 ^ nat (k - 1) < 1" using u by simp
      then have "a < pow2 (1 - k)" by (simp add: p1 field_simps)
      moreover have "pow2 (- k) \<le> a" using l by (simp add: p0 field_simps)
      ultimately show ?thesis using e False by (simp add: a_def[symmetric])
    qed
  qed
  then show "pow2 (expo x) \<le> \<bar>x\<bar>" and "\<bar>x\<bar> < pow2 (expo x + 1)" by simp_all
qed

lemma expo_unique:
  assumes "pow2 e \<le> \<bar>x\<bar>" "\<bar>x\<bar> < pow2 (e + 1)"
  shows "expo x = e"
proof -
  have x: "x \<noteq> 0"
  proof
    assume "x = 0"
    then have "pow2 e \<le> 0" using assms(1) by simp
    then show False using pow2_pos[of e] by linarith
  qed
  note b = expo_bounds[OF x]
  have "\<not> expo x < e"
  proof
    assume "expo x < e"
    then have "pow2 (expo x + 1) \<le> pow2 e" by (intro pow2_mono) simp
    then show False using b(2) assms(1) by simp
  qed
  moreover have "\<not> e < expo x"
  proof
    assume "e < expo x"
    then have "pow2 (e + 1) \<le> pow2 (expo x)" by (intro pow2_mono) simp
    then show False using b(1) assms(2) by simp
  qed
  ultimately show ?thesis by simp
qed

lemma round_even_bound: "\<bar>of_int (round_even q) - q\<bar> \<le> 1 / 2"
  unfolding round_even_def Let_def by (auto simp: abs_if) linarith+

lemma round_even_int [simp]: "round_even (of_int n) = n"
  by (simp add: round_even_def)

lemma round_even_nonneg: "0 \<le> q \<Longrightarrow> 0 \<le> round_even q"
  unfolding round_even_def Let_def by auto

lemma rnd_abs_exact:
  assumes "x = of_int m * pow2 k" "0 < m" "m < 2 ^ 53" "- 1074 \<le> k" "k \<le> 971"
  shows "rnd x = Fin x" and "rnd (- x) = Fin (- x)"
proof -
  have x: "0 < x" using assms by simp
  define e where "e = max (expo x) (- 1022) - 52"
  have "real_of_int m < real_of_int (2 ^ 53)" using assms(3) by (simp only: of_int_less_iff)
  then have "real_of_int m < 2 ^ 53" by simp
  then have "real_of_int m * pow2 k < 2 ^ 53 * pow2 k" by (intro mult_strict_right_mono) simp_all
  then have "\<bar>x\<bar> < 2 ^ 53 * pow2 k" using assms(1) x by simp
  also have "\<dots> = pow2 (53 + k)" by (simp only: pow2_add pow2_numeral)
  finally have "pow2 (expo x) < pow2 (53 + k)" using expo_bounds(1)[of x] x by simp
  then have "expo x < 53 + k" using pow2_mono[of "53 + k" "expo x"] by (cases "expo x < 53 + k") auto
  then have ek: "e \<le> k" using assms(4) by (simp add: e_def)
  define d where "d = nat (k - e)"
  have pk: "pow2 k = 2 ^ d * pow2 e"
    using pow2_add[of "k - e" e] ek by (simp add: d_def pow2_nat)
  have q: "x / pow2 e = of_int (m * 2 ^ d)"
    using assms(1) pk by simp
  have r: "round_even (\<bar>x\<bar> / pow2 e) = m * 2 ^ d" "round_even (\<bar>- x\<bar> / pow2 e) = m * 2 ^ d"
    using x q by (simp_all only: abs_of_pos abs_minus round_even_int)
  have y: "of_int (m * 2 ^ d) * pow2 e = x" using q by (simp add: field_simps)
  have "x < 2 ^ 53 * pow2 971" 
  proof -
    have "x \<le> of_int m * pow2 971" using assms pow2_mono[of k 971] by simp
    also have "\<dots> < 2 ^ 53 * pow2 971" using assms by simp
    finally show ?thesis .
  qed
  also have "\<dots> = 2 ^ 1024" by (simp add: pow2_numeral)
  finally have lt: "\<not> 2 ^ 1024 \<le> x" by simp
  have ex: "expo (- x) = expo x" by (simp add: expo_def)
  show "rnd x = Fin x"
    using x lt unfolding rnd_def Let_def e_def[symmetric] r y by simp
  show "rnd (- x) = Fin (- x)"
    using x lt unfolding rnd_def Let_def ex e_def[symmetric] r y by simp
qed

lemma rnd_exact: "representable x \<Longrightarrow> rnd x = Fin x"
proof -
  assume "representable x"
  then obtain m k where x: "x = of_int m * pow2 k" "\<bar>m\<bar> < 2 ^ 53" "- 1074 \<le> k" "k \<le> 971"
    unfolding representable_def by blast
  consider "m = 0" | "0 < m" | "m < 0" by linarith
  then show ?thesis
  proof cases
    case 1 then show ?thesis using x by (simp add: rnd_def)
  next
    case 2 then show ?thesis using rnd_abs_exact(1)[of x m k] x by simp
  next
    case 3
    then have "rnd (- (of_int (- m) * pow2 k)) = Fin (- (of_int (- m) * pow2 k))"
      using x by (intro rnd_abs_exact(2)[of _ "- m" k]) simp_all
    then show ?thesis using x by simp
  qed
qed

lemma representable_int: "\<bar>n\<bar> < 2 ^ 53 \<Longrightarrow> representable (of_int n)"
  unfolding representable_def by (rule exI[of _ n], rule exI[of _ 0]) (simp add: pow2_def)

lemma rnd_int: "\<bar>n\<bar> < 2 ^ 53 \<Longrightarrow> rnd (of_int n) = Fin (of_int n)"
  by (rule rnd_exact) (rule representable_int)

lemma rnd_error:
  assumes "\<bar>x\<bar> \<le> 2 ^ 1023"
  shows "\<exists>y. rnd x = Fin y \<and> \<bar>y - x\<bar> \<le> \<bar>x\<bar> / 2 ^ 53 + 1 / 2 ^ 1075"
proof (cases "x = 0")
  case True then show ?thesis by (simp add: rnd_def)
next
  case False
  define e where "e = max (expo x) (- 1022) - 52"
  define n where "n = round_even (\<bar>x\<bar> / pow2 e)"
  define y where "y = of_int n * pow2 e"
  have nb: "\<bar>of_int n - \<bar>x\<bar> / pow2 e\<bar> \<le> 1 / 2" unfolding n_def by (rule round_even_bound)
  have "y - \<bar>x\<bar> = (of_int n - \<bar>x\<bar> / pow2 e) * pow2 e"
    by (simp add: y_def left_diff_distrib)
  then have "\<bar>y - \<bar>x\<bar>\<bar> = \<bar>of_int n - \<bar>x\<bar> / pow2 e\<bar> * pow2 e"
    by (simp only: abs_mult) simp
  also have "\<dots> \<le> 1 / 2 * pow2 e" using nb by (intro mult_right_mono) simp_all
  finally have yb: "\<bar>y - \<bar>x\<bar>\<bar> \<le> pow2 e / 2" by simp
  have pe: "pow2 e \<le> \<bar>x\<bar> / 2 ^ 52 + 1 / 2 ^ 1074"
  proof (cases "- 1022 \<le> expo x")
    case True
    then have "e = expo x + (- 52)" by (simp add: e_def)
    then have "pow2 e = pow2 (expo x) / 2 ^ 52" by (simp only: pow2_add) (simp add: pow2_def)
    also have "\<dots> \<le> \<bar>x\<bar> / 2 ^ 52" using expo_bounds(1)[OF False] by (simp add: divide_right_mono)
    finally show ?thesis by simp
  next
    case False
    then have "e = - 1074" by (simp add: e_def)
    then show ?thesis by (simp add: pow2_def)
  qed
  have err: "\<bar>y - \<bar>x\<bar>\<bar> \<le> \<bar>x\<bar> / 2 ^ 53 + 1 / 2 ^ 1075" using yb pe by simp
  have "y \<le> \<bar>x\<bar> + (\<bar>x\<bar> / 2 ^ 53 + 1 / 2 ^ 1075)" using err by linarith
  also have "\<dots> \<le> 2 ^ 1023 + (2 ^ 1023 / 2 ^ 53 + 1 / 2 ^ 1075)" using assms by (simp add: divide_right_mono)
  also have "\<dots> < 2 ^ 1024" by simp
  finally have lt: "\<not> 2 ^ 1024 \<le> y" by simp
  have r: "rnd x = Fin (if 0 < x then y else - y)"
    using False lt unfolding rnd_def Let_def e_def[symmetric] n_def[symmetric] y_def[symmetric] by simp
  show ?thesis
  proof (cases "0 < x")
    case True
    then show ?thesis using r err by (intro exI[of _ y]) simp
  next
    case False
    then have "x < 0" using \<open>x \<noteq> 0\<close> by simp
    then show ?thesis using r err by (intro exI[of _ "- y"]) (simp add: abs_if split: if_splits)
  qed
qed

lemma bitlen_numeral [simp]:
  "bitlen (numeral (Num.Bit0 n)) = bitlen (numeral n) + 1"
  "bitlen (numeral (Num.Bit1 n)) = bitlen (numeral n) + 1"
  "bitlen 1 = 1"
  by (subst compute_bitlen; simp)+

lemma rnd_numeral:
  "(numeral n :: int) < 2 ^ 53 \<Longrightarrow> rnd (numeral n) = Fin (numeral n)"
  "(numeral n :: int) < 2 ^ 53 \<Longrightarrow> rnd (- numeral n) = Fin (- numeral n)"
  "rnd 0 = Fin 0" "rnd 1 = Fin 1" "rnd (- 1) = Fin (- 1)"
  using rnd_int[of "numeral n"] rnd_int[of "- numeral n"] rnd_int[of 0] rnd_int[of 1]
    rnd_int[of "- 1"]
  by simp_all

section \<open>Properties of the parsers\<close>


lemma digit_not_space: "is_digit c \<Longrightarrow> \<not> is_space c"
  unfolding is_digit_def is_space_def by (elim disjE | simp)+

lemma dropWhile_none: "r = [] \<or> \<not> P (hd r) \<Longrightarrow> dropWhile P r = r"
  by (cases r) auto
lemma takeWhile_none: "r = [] \<or> \<not> P (hd r) \<Longrightarrow> takeWhile P r = []"
  by (cases r) auto
lemma takeWhile_all: "list_all P ds \<Longrightarrow> r = [] \<or> \<not> P (hd r) \<Longrightarrow> takeWhile P (ds @ r) = ds"
  by (induction ds) (simp_all add: takeWhile_none)
lemma dropWhile_all: "list_all P ds \<Longrightarrow> dropWhile P (ds @ r) = dropWhile P r"
  by (induction ds) auto
lemma list_all_takeWhile: "list_all P (takeWhile P xs)"
  by (induction xs) auto










subsection \<open>C5: the rotation descriptor\<close>



subsection \<open>C6: the prefix of a name\<close>

lemma alpha_not_space: "is_alpha c \<Longrightarrow> \<not> is_space c"
  unfolding is_alpha_def is_space_def by (elim disjE | simp)+
lemma digit_not_alpha: "is_digit c \<Longrightarrow> \<not> is_alpha c"
  unfolding is_alpha_def is_digit_def by (elim disjE | simp)+

lemma dropWhile_Nil_all: "dropWhile P xs = [] \<Longrightarrow> list_all P xs"
  by (induction xs) (auto split: if_splits)

lemma hd_all: "xs \<noteq> [] \<Longrightarrow> list_all P xs \<Longrightarrow> P (hd xs)"
  by (cases xs) auto

lemma prefix_re_sound:
  assumes "prefix_re s = Some p"
  shows "name_with_prefix p s"
proof -
  define r1 where "r1 = dropWhile is_space s"
  define r2 where "r2 = dropWhile is_alpha r1"
  define r3 where "r3 = dropWhile is_space r2"
  define r4 where "r4 = dropWhile is_digit r3"
  have a: "(if takeWhile is_alpha r1 \<noteq> [] \<and> takeWhile is_digit r3 \<noteq> [] \<and> dropWhile is_space r4 = []
            then Some (takeWhile is_alpha r1) else None) = Some p"
    using assms unfolding prefix_re_def Let_def r1_def r2_def r3_def r4_def .
  then have c: "takeWhile is_alpha r1 \<noteq> []" "takeWhile is_digit r3 \<noteq> []" "dropWhile is_space r4 = []"
    by (simp_all split: if_splits)
  have p: "p = takeWhile is_alpha r1" using a c by simp
  have "s = takeWhile is_space s @ r1" by (simp add: r1_def)
  also have "r1 = p @ r2" by (simp add: p r2_def)
  also have "r2 = takeWhile is_space r2 @ r3" by (simp add: r3_def)
  also have "r3 = takeWhile is_digit r3 @ r4" by (simp add: r4_def)
  finally have s: "s = takeWhile is_space s @ p @ takeWhile is_space r2 @ takeWhile is_digit r3 @ r4" .
  have w3: "list_all is_space r4" using c(3) by (rule dropWhile_Nil_all)
  show ?thesis
    unfolding name_with_prefix_def
    apply (rule exI[of _ "takeWhile is_space s"])
    apply (rule exI[of _ "takeWhile is_space r2"])
    apply (rule exI[of _ "takeWhile is_digit r3"])
    apply (rule exI[of _ r4])
    using s c w3 p by (simp add: list_all_takeWhile)
qed

lemma prefix_re_complete:
  assumes "name_with_prefix p s"
  shows "prefix_re s = Some p"
proof -
  from assms obtain w1 w2 ds w3 where s: "s = w1 @ p @ w2 @ ds @ w3"
    and w1: "list_all is_space w1" and p: "p \<noteq> []" "list_all is_alpha p"
    and w2: "list_all is_space w2" and ds: "ds \<noteq> []" "list_all is_digit ds"
    and w3: "list_all is_space w3"
    unfolding name_with_prefix_def by blast
  have hp: "\<not> is_space (hd (p @ w2 @ ds @ w3))"
    using p hd_all[OF p] by (simp add: alpha_not_space)
  have hd_ds: "is_digit (hd ds)" using hd_all[OF ds] .
  have h2: "\<not> is_alpha (hd (w2 @ ds @ w3))"
  proof (cases "w2 = []")
    case True
    then show ?thesis using ds hd_ds by (simp add: digit_not_alpha)
  next
    case False
    then have "is_space (hd w2)" using w2 by (rule hd_all)
    then show ?thesis using False alpha_not_space by auto
  qed
  have h3: "\<not> is_space (hd (ds @ w3))" using ds hd_ds by (simp add: digit_not_space)
  have h4: "w3 = [] \<or> \<not> is_digit (hd w3)"
    using hd_all[OF _ w3] digit_not_space by blast
  have r1: "dropWhile is_space s = p @ w2 @ ds @ w3"
    unfolding s using w1 hp by (simp add: dropWhile_all dropWhile_none)
  have g1: "takeWhile is_alpha (p @ w2 @ ds @ w3) = p"
    using p(2) h2 by (simp add: takeWhile_all)
  have r2: "dropWhile is_alpha (p @ w2 @ ds @ w3) = w2 @ ds @ w3"
    using p(2) h2 by (simp add: dropWhile_all dropWhile_none)
  have r3: "dropWhile is_space (w2 @ ds @ w3) = ds @ w3"
    using w2 h3 by (simp add: dropWhile_all dropWhile_none)
  have g2: "takeWhile is_digit (ds @ w3) = ds"
    using ds(2) h4 by (simp add: takeWhile_all)
  have r4: "dropWhile is_digit (ds @ w3) = w3"
    using ds(2) h4 by (simp add: dropWhile_all dropWhile_none)
  have r5: "dropWhile is_space w3 = []"
    using w3 by (simp add: list_all_iff)
  show ?thesis
    unfolding prefix_re_def Let_def r1 g1 r2 r3 g2 r4 r5 using p(1) ds(1) by simp
qed

text \<open>
  C6, as the claim states it, fails: in the name \<open>R1\<close> followed by a space the digits
  are not at the end of the name, so the claim gives it no prefix, and the program
  gives it the prefix \<open>R\<close>.
\<close>

theorem prefix_re_trailing_space_counterexample:
  "prefix_re ''R1 '' = Some ''R''"
  by (simp add: prefix_re_def is_space_def is_alpha_def is_digit_def)

text \<open>
  C6, amended: the prefix of a name is the run of letters that comes after optional
  leading white space, when it is followed by optional white space, one or more
  digits and optional white space up to the end of the name; it is absent for every
  other name. In particular \<open>R101\<close> has the prefix \<open>R\<close>, \<open>C1\<close> has \<open>C\<close>, \<open>U\<close> has none
  and \<open>IC 42\<close> has \<open>IC\<close>.
\<close>

theorem prefix_re_grammar:
  "(prefix_re s = Some p \<longleftrightarrow> name_with_prefix p s) \<and>
   (prefix_re s = None \<longleftrightarrow> \<not> (\<exists>q. name_with_prefix q s)) \<and>
   prefix_re ''R101'' = Some ''R'' \<and> prefix_re ''C1'' = Some ''C'' \<and>
   prefix_re ''U'' = None \<and> prefix_re ''IC 42'' = Some ''IC''"
proof -
  have 1: "prefix_re s = Some p \<longleftrightarrow> name_with_prefix p s"
    using prefix_re_sound prefix_re_complete by blast
  have 2: "prefix_re s = None \<longleftrightarrow> \<not> (\<exists>q. name_with_prefix q s)"
  proof (cases "prefix_re s")
    case None
    then show ?thesis using prefix_re_complete by fastforce
  next
    case (Some q)
    then show ?thesis using prefix_re_sound by fastforce
  qed
  have 3: "prefix_re ''R101'' = Some ''R''" "prefix_re ''C1'' = Some ''C''"
    "prefix_re ''U'' = None" "prefix_re ''IC 42'' = Some ''IC''"
    by (simp_all add: prefix_re_def is_space_def is_alpha_def is_digit_def)
  show ?thesis using 1 2 3 by simp
qed

subsection \<open>C7: reading a number\<close>



section \<open>Properties of the renderer\<close>

subsection \<open>C3: the corners of a pad\<close>

lemma rotate_ccw_quarter: "rotate_ccw (pi / 2) (1, 0) = (0, 1)"
  by (simp add: rotate_ccw_def)




subsection \<open>C2: one page for each group\<close>

text \<open>
  C2 says that a component is drawn in the highlight tone on exactly one page. On the
  board with \<open>R1\<close> and \<open>C1\<close> of the same value the driver emits two pages, one headed
  with \<open>R1\<close> and one headed with \<open>C1\<close>, and it draws both components in the highlight
  tone on each of them: the heading is made from the group of the prefix, but
  \<open>render_components\<close> is given all the components of the value.
\<close>

theorem layout_highlights_whole_value_on_each_page:
  "layout_by_same_value [] board_R1_C1 ''1'' =
     [SetPageSize (100, 55),
      SetFont ''Helvetica'' 1,
      DrawCentredString 50 (105 / 2) ''V = 10k, N = R1'',
      SetFillColor HIGHLIGHT_COLOR, DrawPath path_R1 True False,
      SetFillColor HIGHLIGHT_COLOR, DrawPath path_C1 True False,
      ShowPage,
      SetFont ''Helvetica'' 1,
      DrawCentredString 50 (105 / 2) ''V = 10k, N = C1'',
      SetFillColor HIGHLIGHT_COLOR, DrawPath path_R1 True False,
      SetFillColor HIGHLIGHT_COLOR, DrawPath path_C1 True False,
      ShowPage]"
  by (simp add: layout_by_same_value_def board_R1_C1_def render_components_def
      render_component_pad_def pad_corners_def rotate_coords_def dict_append_def dict_set_def
      comp_R1_def comp_C1_def path_R1_def path_C1_def Let_def)

section \<open>Properties of the extractor\<close>

subsection \<open>C1: the wires of the outline\<close>

text \<open>
  C1 says that the wires of the outline are those tagged with the number that the layer
  named \<open>Dimension\<close> declares. On the board whose \<open>Dimension\<close> layer has the number 48
  and whose outline is four wires on the layer 48, the extractor finds no wire and
  fails with \<open>MalformedBoard\<close>: it reads the number of the layer, and then selects the
  wires of the layer 20 whatever that number is.
\<close>

theorem get_board_info_ignores_dimension_number:
  "map (\<lambda>e. get e ''number'') (xpath_tag_attr board_dimension_48 ''layer'' ''name'' ''Dimension'')
     = [Some ''48''] \<and>
   length (xpath_tag_attr board_dimension_48 ''wire'' ''layer'' ''48'') = 4 \<and>
   get_board_info lx board_dimension_48 = Inl MalformedBoard"
  by (simp add: get_board_info_def xpath_tag_attr_def board_dimension_48_def get_def)

section \<open>Properties of the dictionaries\<close>

lemma map_of_map_replace:
  "map_of (map (\<lambda>kv. if fst kv = k then (k, v) else kv) d) k' =
     (if k' = k \<and> k \<in> fst ` set d then Some v else map_of d k')"
  by (induction d) (force simp: image_iff)+

lemma map_of_dict_set: "map_of (dict_set d k v) = (map_of d)(k \<mapsto> v)"
proof (cases "k \<in> fst ` set d")
  case False
  then have "map_of d k = None" by (simp add: map_of_eq_None_iff)
  then show ?thesis using False by (auto simp: dict_set_def fun_eq_iff map_add_def split: option.splits)
next
  case True
  then show ?thesis by (auto simp: dict_set_def fun_eq_iff map_of_map_replace)
qed

lemma keys_dict_set:
  "map fst (dict_set d k v) = (if k \<in> fst ` set d then map fst d else map fst d @ [k])"
  by (auto simp: dict_set_def intro: map_idI)

lemma distinct_dict_set: "distinct (map fst d) \<Longrightarrow> distinct (map fst (dict_set d k v))"
  by (auto simp: keys_dict_set)

lemma set_dict_set: "(k', v') \<in> set (dict_set d k v) \<Longrightarrow> (k', v') \<in> set d \<or> (k' = k \<and> v' = v)"
  by (auto simp: dict_set_def split: if_splits)

lemma map_of_dict_append:
  "map_of (dict_append d k c) =
     (map_of d)(k \<mapsto> (case map_of d k of None \<Rightarrow> [] | Some cs \<Rightarrow> cs) @ [c])"
  by (simp add: dict_append_def map_of_dict_set split: option.splits)

lemma distinct_dict_append: "distinct (map fst d) \<Longrightarrow> distinct (map fst (dict_append d k c))"
  by (simp add: dict_append_def distinct_dict_set split: option.splits)

lemma set_dict_append:
  "(k', cs') \<in> set (dict_append d k c) \<Longrightarrow> (k', cs') \<in> set d \<or> (k' = k \<and> set cs' \<subseteq> insert c (\<Union>(set ` snd ` set d)))"
proof -
  assume a: "(k', cs') \<in> set (dict_append d k c)"
  show ?thesis
  proof (cases "map_of d k")
    case None
    then show ?thesis using a set_dict_set[of k' cs' d k "[c]"] by (auto simp: dict_append_def)
  next
    case (Some cs)
    then have "(k, cs) \<in> set d" by (rule map_of_SomeD)
    then have "set cs \<subseteq> \<Union>(set ` snd ` set d)" by force
    then show ?thesis using a Some set_dict_set[of k' cs' d k "cs @ [c]"]
      by (auto simp: dict_append_def)
  qed
qed

text \<open>The dictionary a loop of appends builds, started from the empty one.\<close>

lemma map_of_fold_append_gen:
  "map_of (foldl (\<lambda>d c. dict_append d (key c) c) d0 comps) k =
     (let fs = filter (\<lambda>c. key c = k) comps
      in if fs = [] then map_of d0 k
         else Some ((case map_of d0 k of None \<Rightarrow> [] | Some cs \<Rightarrow> cs) @ fs))"
proof (induction comps arbitrary: d0)
  case Nil
  then show ?case by simp
next
  case (Cons c comps)
  show ?case
    by (simp add: Cons.IH map_of_dict_append Let_def)
qed

lemma map_of_fold_append:
  "map_of (foldl (\<lambda>d c. dict_append d (key c) c) [] comps) k =
     (if filter (\<lambda>c. key c = k) comps = [] then None
      else Some (filter (\<lambda>c. key c = k) comps))"
  by (simp add: map_of_fold_append_gen Let_def)

lemma distinct_fold_append:
  "distinct (map fst d0) \<Longrightarrow> distinct (map fst (foldl (\<lambda>d c. dict_append d (key c) c) d0 comps))"
  by (induction comps arbitrary: d0) (simp_all add: distinct_dict_append)

lemma map_of_fold_set_gen:
  "map_of (foldl (\<lambda>d c. dict_set d (key c) c) d0 comps) k =
     (case filter (\<lambda>c. key c = k) comps of [] \<Rightarrow> map_of d0 k | f # fs \<Rightarrow> Some (last (f # fs)))"
proof (induction comps arbitrary: d0)
  case Nil
  then show ?case by simp
next
  case (Cons c comps)
  show ?case
    by (simp add: Cons.IH map_of_dict_set split: list.splits)
qed

lemma distinct_fold_set:
  "distinct (map fst d0) \<Longrightarrow> distinct (map fst (foldl (\<lambda>d c. dict_set d (key c) c) d0 comps))"
  by (induction comps arbitrary: d0) (simp_all add: distinct_dict_set)

subsection \<open>The loop over the elements\<close>

lemma get_pads_layers:
  assumes "bi_top_layer bi' = bi_top_layer bi" "bi_bottom_layer bi' = bi_bottom_layer bi"
  shows "get_pads bi' m ps l acc = get_pads bi m ps l acc"
proof (induction ps arbitrary: l acc)
  case Nil
  show ?case by simp
next
  case (Cons p ps)
  show ?case unfolding get_pads.simps Cons.IH assms by (rule refl)
qed

lemma get_component_layers:
  assumes "bi_top_layer bi' = bi_top_layer bi" "bi_bottom_layer bi' = bi_bottom_layer bi"
  shows "get_component lx doc bi' i c = get_component lx doc bi i c"
  unfolding get_component_def get_pads_layers[OF assms] by (rule refl)

lemma built_layers:
  assumes "bi_top_layer bi' = bi_top_layer bi" "bi_bottom_layer bi' = bi_bottom_layer bi"
  shows "built lx doc bi' i cs = built lx doc bi i cs"
proof (induction cs arbitrary: i)
  case Nil
  show ?case by simp
next
  case (Cons c cs)
  show ?case unfolding built.simps Cons.IH get_component_layers[OF assms] by (rule refl)
qed

lemma add_to_indices_layers [simp]:
  "bi_top_layer (add_to_indices bi com) = bi_top_layer bi"
  "bi_bottom_layer (add_to_indices bi com) = bi_bottom_layer bi"
  by (simp_all add: add_to_indices_def)

lemma foldl_add_layers [simp]:
  "bi_top_layer (foldl add_to_indices bi coms) = bi_top_layer bi"
  "bi_bottom_layer (foldl add_to_indices bi coms) = bi_bottom_layer bi"
  by (induction coms arbitrary: bi) simp_all

lemma get_components_built:
  "get_components lx doc cs i bi acc = Inr (bi', acc') \<Longrightarrow>
   acc' = acc @ built lx doc bi i cs \<and> bi' = foldl add_to_indices bi (built lx doc bi i cs)"
proof (induction cs arbitrary: i bi acc)
  case Nil
  then show ?case by simp
next
  case (Cons c cs)
  show ?case
  proof (cases "get_component lx doc bi i c")
    case (Inl e)
    then show ?thesis using Cons.prems by simp
  next
    case (Inr r)
    show ?thesis
    proof (cases r)
      case None
      then show ?thesis using Cons.prems Inr Cons.IH[of "Suc i" bi acc] by simp
    next
      case (Some com)
      have b: "built lx doc (add_to_indices bi com) (Suc i) cs = built lx doc bi (Suc i) cs"
        by (rule built_layers) simp_all
      from Cons.prems Inr Some
      have "get_components lx doc cs (Suc i) (add_to_indices bi com) (acc @ [com]) = Inr (bi', acc')"
        by simp
      from Cons.IH[OF this] show ?thesis using Inr Some b by simp
    qed
  qed
qed

lemma get_components_no_error:
  "get_components lx doc cs i bi acc = Inr (bi', acc') \<Longrightarrow> j < length cs \<Longrightarrow>
   \<exists>r. get_component lx doc bi (i + j) (cs ! j) = Inr r"
proof (induction cs arbitrary: i bi acc j)
  case Nil
  then show ?case by simp
next
  case (Cons c cs)
  show ?case
  proof (cases "get_component lx doc bi i c")
    case (Inl e)
    then show ?thesis using Cons.prems by simp
  next
    case (Inr r)
    show ?thesis
    proof (cases j)
      case 0
      then show ?thesis using Inr by simp
    next
      case (Suc j')
      then have j': "j' < length cs" using Cons.prems by simp
      show ?thesis
      proof (cases r)
        case None
        then have "get_components lx doc cs (Suc i) bi acc = Inr (bi', acc')"
          using Cons.prems Inr by simp
        from Cons.IH[OF this j'] show ?thesis using Suc by simp
      next
        case (Some com)
        then have "get_components lx doc cs (Suc i) (add_to_indices bi com) (acc @ [com]) = Inr (bi', acc')"
          using Cons.prems Inr by simp
        from Cons.IH[OF this j'] show ?thesis
          using Suc get_component_layers[of "add_to_indices bi com" bi lx doc] by simp
      qed
    qed
  qed
qed

lemma get_component_oid: "get_component lx doc bi i c = Inr (Some com) \<Longrightarrow> oid com = i"
  by (auto simp: get_component_def Let_def split: option.splits sum.splits if_splits list.splits prod.splits)

lemma built_oid:
  "com \<in> set (built lx doc bi i cs) \<Longrightarrow>
   i \<le> oid com \<and> oid com < i + length cs \<and>
   get_component lx doc bi (oid com) (cs ! (oid com - i)) = Inr (Some com)"
proof (induction cs arbitrary: i)
  case Nil
  then show ?case by simp
next
  case (Cons c cs)
  show ?case
  proof (cases "get_component lx doc bi i c = Inr (Some com)")
    case True
    then show ?thesis using get_component_oid[OF True] by simp
  next
    case False
    then have "com \<in> set (built lx doc bi (Suc i) cs)"
      using Cons.prems by (auto split: sum.splits option.splits)
    from Cons.IH[OF this] have ih: "Suc i \<le> oid com" "oid com < Suc i + length cs"
      "get_component lx doc bi (oid com) (cs ! (oid com - Suc i)) = Inr (Some com)" by simp_all
    have "oid com - i = Suc (oid com - Suc i)" using ih(1) by simp
    then have "(c # cs) ! (oid com - i) = cs ! (oid com - Suc i)" by simp
    then show ?thesis using ih by simp
  qed
qed

lemma built_skipped:
  "j < length cs \<Longrightarrow> get_component lx doc bi (i + j) (cs ! j) = Inr None \<Longrightarrow>
   i + j \<notin> oid ` set (built lx doc bi i cs)"
proof
  assume j: "j < length cs" and n: "get_component lx doc bi (i + j) (cs ! j) = Inr None"
    and "i + j \<in> oid ` set (built lx doc bi i cs)"
  then obtain com where com: "com \<in> set (built lx doc bi i cs)" "oid com = i + j" by auto
  from built_oid[OF com(1)] com(2) n show False by simp
qed

lemma built_sorted: "sorted_wrt (<) (map oid (built lx doc bi i cs))"
proof (induction cs arbitrary: i)
  case Nil
  then show ?case by simp
next
  case (Cons c cs)
  have lt: "com \<in> set (built lx doc bi (Suc i) cs) \<Longrightarrow> i < oid com" for com
    using built_oid[of com lx doc bi "Suc i" cs] by simp
  show ?case
  proof (cases "get_component lx doc bi i c")
    case (Inl e)
    then show ?thesis using Cons.IH by simp
  next
    case (Inr r)
    then show ?thesis
      using Cons.IH[of "Suc i"] lt get_component_oid[of lx doc bi i c]
      by (cases r) auto
  qed
qed

lemma built_distinct: "distinct (built lx doc bi i cs)"
proof -
  have "distinct (map oid (built lx doc bi i cs))"
    using built_sorted[of lx doc bi i cs] strict_sorted_iff by (simp add: strict_sorted_iff)
  then show ?thesis by (simp add: distinct_map)
qed

subsection \<open>The information of a board, as a function of the components built\<close>

lemma foldl_add_fields:
  "bi_value_to_components (foldl add_to_indices bi coms) =
     foldl (\<lambda>d c. dict_append d (comp_value c) c) (bi_value_to_components bi) coms"
  "bi_layer_to_components (foldl add_to_indices bi coms) =
     foldl (\<lambda>d c. dict_append d (comp_layer c) c) (bi_layer_to_components bi) coms"
  "bi_layer_value_to_components (foldl add_to_indices bi coms) =
     foldl (\<lambda>d c. dict_append d (comp_layer c, comp_value c) c) (bi_layer_value_to_components bi) coms"
  "bi_name_to_component (foldl add_to_indices bi coms) =
     foldl (\<lambda>d c. dict_set d (comp_name c) c) (bi_name_to_component bi) coms"
  by (induction coms arbitrary: bi) (simp_all add: add_to_indices_def)

lemma get_board_info_loop:
  assumes "get_board_info lx doc = Inr bi"
  shows "\<exists>bi0 bi1. get_components lx doc (xpath_tag doc ''element'') 0 bi0 [] = Inr (bi1, bi_components bi) \<and>
           bi = bi1\<lparr>bi_components := bi_components bi\<rparr> \<and>
           bi_value_to_components bi0 = [] \<and> bi_name_to_component bi0 = [] \<and>
           bi_layer_to_components bi0 = [] \<and> bi_layer_value_to_components bi0 = []"
  using assms unfolding get_board_info_def Let_def
  apply (auto split: list.splits if_splits sum.splits prod.splits)
  apply (rule exI, rule exI, rule conjI, assumption)
  apply simp
  done

lemma get_board_info_built:
  assumes "get_board_info lx doc = Inr bi"
  shows "bi_components bi = built lx doc bi 0 (xpath_tag doc ''element'')"
    and "bi_value_to_components bi =
           foldl (\<lambda>d c. dict_append d (comp_value c) c) [] (bi_components bi)"
    and "bi_layer_to_components bi =
           foldl (\<lambda>d c. dict_append d (comp_layer c) c) [] (bi_components bi)"
    and "bi_layer_value_to_components bi =
           foldl (\<lambda>d c. dict_append d (comp_layer c, comp_value c) c) [] (bi_components bi)"
    and "bi_name_to_component bi =
           foldl (\<lambda>d c. dict_set d (comp_name c) c) [] (bi_components bi)"
    and "j < length (xpath_tag doc ''element'') \<Longrightarrow>
           \<exists>r. get_component lx doc bi j (xpath_tag doc ''element'' ! j) = Inr r"
proof -
  from get_board_info_loop[OF assms] obtain bi0 bi1 where
    l: "get_components lx doc (xpath_tag doc ''element'') 0 bi0 [] = Inr (bi1, bi_components bi)"
    and b: "bi = bi1\<lparr>bi_components := bi_components bi\<rparr>"
    and e: "bi_value_to_components bi0 = []" "bi_name_to_component bi0 = []"
       "bi_layer_to_components bi0 = []" "bi_layer_value_to_components bi0 = []"
    by blast
  from get_components_built[OF l] have c: "bi_components bi = built lx doc bi0 0 (xpath_tag doc ''element'')"
    and f: "bi1 = foldl add_to_indices bi0 (bi_components bi)" by simp_all
  have t: "bi_top_layer bi = bi_top_layer bi0" "bi_bottom_layer bi = bi_bottom_layer bi0"
    by (subst b, simp add: f)+
  show "bi_components bi = built lx doc bi 0 (xpath_tag doc ''element'')"
    using c built_layers[OF t] by simp
  have v: "bi_value_to_components bi = bi_value_to_components bi1"
    "bi_layer_to_components bi = bi_layer_to_components bi1"
    "bi_layer_value_to_components bi = bi_layer_value_to_components bi1"
    "bi_name_to_component bi = bi_name_to_component bi1"
    by (subst b, simp)+
  show "bi_value_to_components bi =
           foldl (\<lambda>d c. dict_append d (comp_value c) c) [] (bi_components bi)"
    unfolding v f foldl_add_fields e ..
  show "bi_layer_to_components bi =
           foldl (\<lambda>d c. dict_append d (comp_layer c) c) [] (bi_components bi)"
    unfolding v f foldl_add_fields e ..
  show "bi_layer_value_to_components bi =
           foldl (\<lambda>d c. dict_append d (comp_layer c, comp_value c) c) [] (bi_components bi)"
    unfolding v f foldl_add_fields e ..
  show "bi_name_to_component bi =
           foldl (\<lambda>d c. dict_set d (comp_name c) c) [] (bi_components bi)"
    unfolding v f foldl_add_fields e ..
  show "\<exists>r. get_component lx doc bi j (xpath_tag doc ''element'' ! j) = Inr r"
    if "j < length (xpath_tag doc ''element'')"
    using get_components_no_error[OF l that] get_component_layers[OF t] by simp
qed

lemma count_list_filter_distinct:
  "distinct xs \<Longrightarrow> x \<in> set xs \<Longrightarrow> P x \<Longrightarrow> count_list (filter P xs) x = 1"
  by (induction xs) (auto simp: count_list_0_iff)

lemma grouped:
  assumes d: "d = foldl (\<lambda>d c. dict_append d (key c) c) [] comps" and dist: "distinct comps"
  shows "distinct (map fst d)"
    and "c \<in> set comps \<Longrightarrow> \<exists>cs. (key c, cs) \<in> set d \<and> count_list cs c = 1"
    and "(k, cs) \<in> set d \<Longrightarrow> set cs \<subseteq> set comps"
proof -
  show dk: "distinct (map fst d)" unfolding d by (rule distinct_fold_append) simp
  have m: "map_of d k' = (if filter (\<lambda>c. key c = k') comps = [] then None
                           else Some (filter (\<lambda>c. key c = k') comps))" for k'
    unfolding d by (rule map_of_fold_append)
  show "\<exists>cs. (key c, cs) \<in> set d \<and> count_list cs c = 1" if c: "c \<in> set comps"
  proof -
    have ne: "filter (\<lambda>c'. key c' = key c) comps \<noteq> []"
      using c by (auto simp: filter_empty_conv)
    then have "map_of d (key c) = Some (filter (\<lambda>c'. key c' = key c) comps)"
      using m by simp
    then have "(key c, filter (\<lambda>c'. key c' = key c) comps) \<in> set d" by (rule map_of_SomeD)
    moreover have "count_list (filter (\<lambda>c'. key c' = key c) comps) c = 1"
      using dist c by (rule count_list_filter_distinct) simp
    ultimately show ?thesis by blast
  qed
  show "set cs \<subseteq> set comps" if "(k, cs) \<in> set d"
  proof -
    from that dk have "map_of d k = Some cs" by simp
    then have "cs = filter (\<lambda>c. key c = k) comps" using m[of k] by (simp split: if_splits)
    then show ?thesis by auto
  qed
qed

lemma named:
  assumes d: "d = foldl (\<lambda>d c. dict_set d (key c) c) [] comps"
  shows "distinct (map fst d)"
    and "(n, c) \<in> set d \<Longrightarrow> c \<in> set comps"
    and "map_of d n = (case filter (\<lambda>c. key c = n) comps of [] \<Rightarrow> None | f # fs \<Rightarrow> Some (last (f # fs)))"
proof -
  show dk: "distinct (map fst d)" unfolding d by (rule distinct_fold_set) simp
  show m: "map_of d n = (case filter (\<lambda>c. key c = n) comps of [] \<Rightarrow> None | f # fs \<Rightarrow> Some (last (f # fs)))"
    for n unfolding d by (simp add: map_of_fold_set_gen split: list.splits)
  show "c \<in> set comps" if "(n, c) \<in> set d"
  proof -
    from that dk have s: "map_of d n = Some c" by simp
    then obtain f fs where f: "filter (\<lambda>c. key c = n) comps = f # fs" "c = last (f # fs)"
      using m[of n] by (auto split: list.splits)
    have "last (f # fs) \<in> set (f # fs)" by (rule last_in_set) simp
    then have "c \<in> set (filter (\<lambda>c. key c = n) comps)" using f by simp
    then show ?thesis by simp
  qed
qed

subsection \<open>The example board\<close>

lemma py_float_examples:
  "py_float ''0'' = Some (Fin 0)" "py_float ''1'' = Some (Fin 1)" "py_float ''-1'' = Some (Fin (- 1))"
  "py_float ''2'' = Some (Fin 2)" "py_float ''25'' = Some (Fin 25)" "py_float ''40'' = Some (Fin 40)"
  "py_float ''5'' = Some (Fin 5)" "py_float ''10'' = Some (Fin 10)" "py_float ''20'' = Some (Fin 20)"
  "py_float ''30'' = Some (Fin 30)" "py_float ''50'' = Some (Fin 50)"
  "py_float ''90'' = Some (Fin 90)" "py_float ''100'' = Some (Fin 100)"
  "py_float ''180'' = Some (Fin 180)"
  by (simp_all add: py_float_def strip_def float_space_def lower_def floatnumber_def number_def
      is_e_def digits_of_def decimal_def digit_val_def is_digit_def rnd_numeral)

lemma rot_examples:
  "element_rot ''MR90'' = Inr (Fin 90, True)" "element_rot ''MR0'' = Inr (Fin 0, True)"
  "element_rot ''MR180.5'' = Inr (Fin 180, True)"
  "pad_rot ''R90'' = Inr (Fin 90)"
  by (simp_all add: element_rot_def pad_rot_def angle_re_def angle_re_tail_def is_digit_def
      dollar_def py_float_examples)

lemma prefix_examples:
  "prefix_re ''R1'' = Some ''R''" "prefix_re ''R2'' = Some ''R''" "prefix_re ''C3'' = Some ''C''"
  "prefix_re ''T1'' = Some ''T''"
  by (simp_all add: prefix_re_def is_space_def is_alpha_def is_digit_def)

lemma tags_example [simp]:
  "tag package_0402 = ''package''" "tag package_0402B = ''package''"
  "tag package_HOLE = ''package''" "tag package_TP = ''package''"
  "tag element_R1 = ''element''" "tag element_R2 = ''element''" "tag element_H1 = ''element''"
  "tag element_C3 = ''element''" "tag element_T1 = ''element''"
  by (simp_all add: package_0402_def package_0402B_def package_HOLE_def package_TP_def
      element_R1_def element_R2_def element_H1_def element_C3_def element_T1_def)

lemma iter_example:
  "iter board_example =
     board_example #
     [Element ''layer'' [(''number'', ''1''), (''name'', ''Top'')] [],
      Element ''layer'' [(''number'', ''16''), (''name'', ''Bottom'')] [],
      Element ''layer'' [(''number'', ''20''), (''name'', ''Dimension'')] [],
      Element ''wire'' [(''x1'', ''0''), (''y1'', ''0''), (''x2'', ''100''), (''y2'', ''0''),
                        (''layer'', ''20'')] [],
      Element ''wire'' [(''x1'', ''100''), (''y1'', ''0''), (''x2'', ''100''), (''y2'', ''50''),
                        (''layer'', ''20'')] []] @
     iter package_0402 @ iter package_0402B @ iter package_HOLE @ iter package_TP @
     [element_R1, element_R2, element_H1, element_C3, element_T1]"
  by (simp add: board_example_def element_R1_def element_R2_def element_H1_def element_C3_def
      element_T1_def)

lemma names_example:
  "get package_0402 ''name'' = Some ''0402''" "get package_0402B ''name'' = Some ''0402B''"
  "get package_HOLE ''name'' = Some ''HOLE''" "get package_TP ''name'' = Some ''TP''"
  by (simp_all add: get_def package_0402_def package_0402B_def package_HOLE_def package_TP_def)

lemma packages_example:
  "xpath_tag_attr board_example ''package'' ''name'' ''0402'' = [package_0402]"
  "xpath_tag_attr board_example ''package'' ''name'' ''0402B'' = [package_0402B]"
  "xpath_tag_attr board_example ''package'' ''name'' ''HOLE'' = [package_HOLE]"
  "xpath_tag_attr board_example ''package'' ''name'' ''TP'' = [package_TP]"
  unfolding xpath_tag_attr_def iter_example
  by (simp_all add: names_example board_example_def get_def,
      simp_all add: package_0402_def package_0402B_def package_HOLE_def package_TP_def
        element_R1_def element_R2_def element_H1_def element_C3_def element_T1_def)

lemma package_pads_example:
  assumes "bi_top_layer bi = ''1''" "bi_bottom_layer bi = ''16''"
  shows "get_pads bi False (xpath_child package_0402 ''smd'') None [] = Inr (pads_0402, Some ''1'')"
    and "get_pads bi True (xpath_child package_0402 ''smd'') None [] = Inr (pads_0402, Some ''16'')"
    and "get_pads bi True (xpath_child package_0402B ''smd'') None [] = Inr (pads_0402B, Some ''1'')"
    and "get_pads bi m (xpath_child package_TP ''smd'') None [] = Inr (pads_TP, Some ''29'')"
    and "xpath_child package_HOLE ''smd'' = []"
    and "xpath_child package_0402 ''smd'' \<noteq> []" "xpath_child package_0402B ''smd'' \<noteq> []"
      "xpath_child package_TP ''smd'' \<noteq> []"
  by (simp_all add: assms xpath_child_def package_0402_def package_0402B_def package_TP_def
      package_HOLE_def get_def get_pad_def getfloat_def py_float_examples rot_examples
      pads_0402_def pads_0402B_def pads_TP_def)

lemma components_built_example:
  assumes "bi_top_layer bi = ''1''" "bi_bottom_layer bi = ''16''"
  shows "get_component lx board_example bi 0 element_R1 = Inr (Some built_R1)"
    and "get_component lx board_example bi (Suc 0) element_R2 = Inr (Some built_R2)"
    and "get_component lx board_example bi (Suc (Suc 0)) element_H1 = Inr None"
    and "get_component lx board_example bi (Suc (Suc (Suc 0))) element_C3 = Inr (Some built_C3)"
    and "get_component lx board_example bi (Suc (Suc (Suc (Suc 0)))) element_T1 =
           Inr (Some built_T1)"
  by (simp_all add: get_component_def find_package_def packages_example package_pads_example[OF assms]
      element_R1_def element_R2_def element_H1_def element_C3_def element_T1_def get_def
      getfloat_def py_float_examples rot_examples prefix_examples
      built_R1_def built_R2_def built_C3_def built_T1_def Let_def)

lemma elements_example:
  "xpath_tag board_example ''element'' =
     [element_R1, element_R2, element_H1, element_C3, element_T1]"
  unfolding xpath_tag_def iter_example
  by (simp add: board_example_def package_0402_def package_0402B_def package_HOLE_def
      package_TP_def)

lemma layers_found_example:
  "xpath_tag_attr board_example ''layer'' ''name'' ''Dimension'' =
     [Element ''layer'' [(''number'', ''20''), (''name'', ''Dimension'')] []]"
  "xpath_tag_attr board_example ''layer'' ''name'' ''Top'' =
     [Element ''layer'' [(''number'', ''1''), (''name'', ''Top'')] []]"
  "xpath_tag_attr board_example ''layer'' ''name'' ''Bottom'' =
     [Element ''layer'' [(''number'', ''16''), (''name'', ''Bottom'')] []]"
  "xpath_tag_attr board_example ''wire'' ''layer'' ''20'' =
     [Element ''wire'' [(''x1'', ''0''), (''y1'', ''0''), (''x2'', ''100''), (''y2'', ''0''),
                        (''layer'', ''20'')] [],
      Element ''wire'' [(''x1'', ''100''), (''y1'', ''0''), (''x2'', ''100''), (''y2'', ''50''),
                        (''layer'', ''20'')] []]"
  unfolding xpath_tag_attr_def iter_example
  by (simp_all add: board_example_def get_def,
      simp_all add: package_0402_def package_0402B_def package_HOLE_def package_TP_def)

lemma wires_example:
  "wires_bbox
     [Element ''wire'' [(''x1'', ''0''), (''y1'', ''0''), (''x2'', ''100''), (''y2'', ''0''),
                        (''layer'', ''20'')] [],
      Element ''wire'' [(''x1'', ''100''), (''y1'', ''0''), (''x2'', ''100''), (''y2'', ''50''),
                        (''layer'', ''20'')] []] (PInf, PInf, NInf, NInf) =
   Inr (Fin 0, Fin 0, Fin 100, Fin 50)"
  by (simp add: getfloat_def get_def py_float_examples py_min_def py_max_def)

lemma loop_example:
  assumes "bi_top_layer bi = ''1''" "bi_bottom_layer bi = ''16''"
  shows "get_components lx board_example [element_R1, element_R2, element_H1, element_C3, element_T1]
           0 bi [] =
         Inr (add_to_indices (add_to_indices (add_to_indices (add_to_indices bi built_R1) built_R2)
                built_C3) built_T1,
              [built_R1, built_R2, built_C3, built_T1])"
  using assms by (simp add: components_built_example)

lemma get_board_info_example: "get_board_info lx board_example = Inr info_example"
  unfolding get_board_info_def layers_found_example elements_example
  by (simp add: loop_example get_def getfloat_def py_float_examples py_min_def py_max_def
        Let_def rnd_numeral del: get_components.simps,
      simp add: add_to_indices_def dict_set_def dict_append_def info_example_def
        built_R1_def built_R2_def built_C3_def built_T1_def)

subsection \<open>C10: the indices and the list of the components\<close>

lemma get_board_info_consistent:
  assumes "get_board_info lx doc = Inr bi"
  shows "indices_consistent bi"
proof -
  note b = get_board_info_built[OF assms]
  have dist: "distinct (bi_components bi)" unfolding b(1) by (rule built_distinct)
  note v = grouped[OF b(2) dist]
  note l = grouped[OF b(3) dist]
  note lv = grouped[OF b(4) dist]
  note n = named[OF b(5)]
  show ?thesis
    unfolding indices_consistent_def
  proof (intro conjI ballI allI)
    show "distinct (bi_components bi)" by (rule dist)
    show "distinct (map fst (bi_value_to_components bi))" by (rule v(1))
    show "distinct (map fst (bi_layer_to_components bi))" by (rule l(1))
    show "distinct (map fst (bi_layer_value_to_components bi))" by (rule lv(1))
    show "distinct (map fst (bi_name_to_component bi))" by (rule n(1))
  next
    fix c assume "c \<in> set (bi_components bi)"
    then show "\<exists>cs. (comp_value c, cs) \<in> set (bi_value_to_components bi) \<and> count_list cs c = 1"
      by (rule v(2))
  next
    fix c assume "c \<in> set (bi_components bi)"
    then show "\<exists>cs. (comp_layer c, cs) \<in> set (bi_layer_to_components bi) \<and> count_list cs c = 1"
      by (rule l(2))
  next
    fix c assume "c \<in> set (bi_components bi)"
    then show "\<exists>cs. ((comp_layer c, comp_value c), cs) \<in> set (bi_layer_value_to_components bi) \<and>
               count_list cs c = 1"
      by (rule lv(2))
  next
    fix kcs assume "kcs \<in> set (bi_value_to_components bi)"
    then show "set (snd kcs) \<subseteq> set (bi_components bi)" using v(3)[of "fst kcs" "snd kcs"] by simp
  next
    fix kcs assume "kcs \<in> set (bi_layer_to_components bi)"
    then show "set (snd kcs) \<subseteq> set (bi_components bi)" using l(3)[of "fst kcs" "snd kcs"] by simp
  next
    fix kcs assume "kcs \<in> set (bi_layer_value_to_components bi)"
    then show "set (snd kcs) \<subseteq> set (bi_components bi)" using lv(3)[of "fst kcs" "snd kcs"] by simp
  next
    fix nc assume "nc \<in> set (bi_name_to_component bi)"
    then show "snd nc \<in> set (bi_components bi)" using n(2)[of "fst nc" "snd nc"] by simp
  next
    fix n' show "map_of (bi_name_to_component bi) n' =
         (case filter (\<lambda>c. comp_name c = n') (bi_components bi) of
            [] \<Rightarrow> None
          | f # fs \<Rightarrow> Some (last (f # fs)))" by (rule n(3))
  qed
qed

text \<open>
  C10: after a successful extraction the four indices agree with the list of the
  components: every component of the list is exactly once in the bucket of its value,
  exactly once in the bucket of its layer and exactly once in the bucket of its layer
  and value; every component of a bucket of an index, and every component of the
  index of the names, is in the list; and the index of the names gives, for a name,
  the last component built with that name. The keys of an index are distinct, so the
  bucket of a key is one bucket, and the components of the list are distinct objects.
\<close>

theorem get_board_info_indices_consistent:
  "get_board_info lx doc = Inr bi \<Longrightarrow> indices_consistent bi"
  by (rule get_board_info_consistent)

text \<open>The example board is extracted with success, and its indices agree.\<close>

theorem get_board_info_indices_consistent_witness:
  "get_board_info lxml_rejects board_example = Inr info_example \<and>
   indices_consistent info_example"
  using get_board_info_example[of lxml_rejects]
    get_board_info_indices_consistent[OF get_board_info_example[of lxml_rejects]]
  by simp

subsection \<open>C8: an element whose package has no pad\<close>

lemma get_component_without_pads:
  assumes "package_without_pads doc c" and "get c ''package'' = Some package_name"
    and "CHR 0x27 \<notin> set package_name"
  shows "get_component lx doc bi j c =
     (if get c ''name'' = None \<or> get c ''name'' = Some [] then Inl (MissingAttribute ''name'')
      else if get c ''value'' = None then Inl (MissingAttribute ''value'')
      else Inr None)"
proof -
  from assms obtain package0 others where
    p: "xpath_tag_attr doc ''package'' ''name'' package_name = package0 # others"
       "xpath_child package0 ''smd'' = []"
    unfolding package_without_pads_def by auto
  show ?thesis
    by (simp add: get_component_def find_package_def assms(2,3) p Let_def split: option.splits)
qed

lemma buckets_subset:
  assumes "\<And>k cs. (k, cs) \<in> set d \<Longrightarrow> set cs \<subseteq> A"
  shows "\<Union>(set ` snd ` set d) \<subseteq> A"
proof
  fix x assume "x \<in> \<Union>(set ` snd ` set d)"
  then obtain kcs where k: "kcs \<in> set d" "x \<in> set (snd kcs)" by auto
  from assms[of "fst kcs" "snd kcs"] k show "x \<in> A" by auto
qed

lemma values_subset:
  assumes "\<And>n c. (n, c) \<in> set d \<Longrightarrow> c \<in> A"
  shows "snd ` set d \<subseteq> A"
proof
  fix x assume "x \<in> snd ` set d"
  then obtain nc where k: "nc \<in> set d" "x = snd nc" by auto
  from assms[of "fst nc" "snd nc"] k show "x \<in> A" by auto
qed

lemma absent_from_indices:
  assumes g: "get_board_info lx doc = Inr bi" and j: "j \<notin> oid ` set (bi_components bi)"
  shows "absent j bi"
proof -
  note b = get_board_info_built[OF g]
  have dist: "distinct (bi_components bi)" unfolding b(1) by (rule built_distinct)
  have v: "\<Union>(set ` snd ` set (bi_value_to_components bi)) \<subseteq> set (bi_components bi)"
    by (rule buckets_subset) (rule grouped(3)[OF b(2) dist])
  have l: "\<Union>(set ` snd ` set (bi_layer_to_components bi)) \<subseteq> set (bi_components bi)"
    by (rule buckets_subset) (rule grouped(3)[OF b(3) dist])
  have lv: "\<Union>(set ` snd ` set (bi_layer_value_to_components bi)) \<subseteq> set (bi_components bi)"
    by (rule buckets_subset) (rule grouped(3)[OF b(4) dist])
  have n: "snd ` set (bi_name_to_component bi) \<subseteq> set (bi_components bi)"
    by (rule values_subset) (rule named(2)[OF b(5)])
  have m: "j \<notin> oid ` B" if "B \<subseteq> set (bi_components bi)" for B
    using j that by blast
  show ?thesis
    unfolding absent_def using j m[OF v] m[OF l] m[OF lv] m[OF n] by simp
qed

text \<open>
  C8, as the claim states it, fails: on the board whose only element has no value and
  names the package \<open>HOLE\<close>, which has no pad, the element is not skipped and the
  extraction fails, since the value is required before the package is looked up.
\<close>

theorem element_without_pads_not_skipped_counterexample:
  "xpath_tag board_no_value ''element'' = [element_H2] \<and>
   package_without_pads board_no_value element_H2 \<and>
   get_board_info lxml_rejects board_no_value = Inl (MissingAttribute ''value'')"
  by (simp add: package_without_pads_def element_H2_def get_def xpath_tag_attr_def xpath_tag_def
      board_no_value_def xpath_child_def get_board_info_def getfloat_def py_float_examples
      get_component_def Let_def)

text \<open>
  C8, amended: take an element that names a package whose name has no apostrophe, when
  the first package of that name in the document has no surface-mount pad (what the
  query for a name with an apostrophe selects is left out). If the element has a name
  that is not empty and a value, which the loop requires before it looks the package
  up, the body of the loop returns without a component and without an error, and its
  position and rotation descriptor are not read. In every successful extraction the
  element, at the position \<open>j\<close>, was skipped in that way, and no component built from
  it is in the list of the components, in the index of the names, of the values, of
  the layers, or of the layers and values.
\<close>

theorem element_without_pads_is_skipped:
  assumes "package_without_pads doc c" and "get c ''package'' = Some package_name"
    and "CHR 0x27 \<notin> set package_name"
  shows "(get c ''name'' \<noteq> None \<and> get c ''name'' \<noteq> Some [] \<and> get c ''value'' \<noteq> None \<longrightarrow>
            get_component lx doc bi j c = Inr None) \<and>
         (get_board_info lx doc = Inr info \<and> j < length (xpath_tag doc ''element'') \<and>
          xpath_tag doc ''element'' ! j = c \<longrightarrow>
            get_component lx doc info j c = Inr None \<and> absent j info)"
proof (intro conjI impI)
  assume "get c ''name'' \<noteq> None \<and> get c ''name'' \<noteq> Some [] \<and> get c ''value'' \<noteq> None"
  then show "get_component lx doc bi j c = Inr None"
    by (simp add: get_component_without_pads[OF assms])
next
  assume a: "get_board_info lx doc = Inr info \<and> j < length (xpath_tag doc ''element'') \<and>
          xpath_tag doc ''element'' ! j = c"
  then have g: "get_board_info lx doc = Inr info" and j: "j < length (xpath_tag doc ''element'')"
    and c: "xpath_tag doc ''element'' ! j = c" by simp_all
  from get_board_info_built(6)[OF g j] c obtain r where "get_component lx doc info j c = Inr r"
    by auto
  then show n: "get_component lx doc info j c = Inr None"
    by (simp add: get_component_without_pads[OF assms] split: if_splits)
  have "0 + j \<notin> oid ` set (built lx doc info 0 (xpath_tag doc ''element''))"
    by (rule built_skipped[OF j]) (simp add: c n)
  then have "j \<notin> oid ` set (bi_components info)"
    using get_board_info_built(1)[OF g] by simp
  with g show "absent j info" by (rule absent_from_indices)
qed

lemma H1_without_pads:
  "package_without_pads board_example element_H1"
  "get element_H1 ''package'' = Some ''HOLE''" "CHR 0x27 \<notin> set ''HOLE''"
  by (simp_all add: package_without_pads_def packages_example xpath_child_def package_HOLE_def
      element_H1_def get_def)

text \<open>The element \<open>H1\<close> of the example board, at the position 2, is skipped.\<close>

theorem element_without_pads_is_skipped_witness:
  "package_without_pads board_example element_H1 \<and>
   get element_H1 ''package'' = Some ''HOLE'' \<and> CHR 0x27 \<notin> set ''HOLE'' \<and>
   get element_H1 ''name'' = Some ''H1'' \<and> get element_H1 ''value'' = Some ''M3'' \<and>
   get_board_info lxml_rejects board_example = Inr info_example \<and>
   xpath_tag board_example ''element'' ! 2 = element_H1 \<and>
   get_component lxml_rejects board_example info_example 2 element_H1 = Inr None \<and>
   absent 2 info_example"
  using H1_without_pads
    element_without_pads_is_skipped[OF H1_without_pads, of lxml_rejects info_example 2 info_example]
    get_board_info_example[of lxml_rejects] elements_example
  by (simp add: element_H1_def get_def)

subsection \<open>C4: mirrored elements\<close>

lemma get_pads_Cons:
  "get_pads bi m (p # ps) l acc = Inr (pads, l') \<Longrightarrow>
   \<exists>l0 op. get p ''layer'' = Some l0 \<and> get_pad p = Inr op \<and>
     get_pads bi m ps
       (case l of
          None \<Rightarrow> Some (if m then (if l0 = bi_top_layer bi then bi_bottom_layer bi
                                   else if l0 = bi_bottom_layer bi then bi_top_layer bi
                                   else l0)
                         else l0)
        | Some cl \<Rightarrow> Some cl)
       (acc @ [op]) = Inr (pads, l')"
  by (cases "get p ''layer''"; cases "get_pad p") (simp_all add: Let_def)

lemma get_pads_keeps_layer:
  "get_pads bi m ps (Some cl) acc = Inr (pads, l) \<Longrightarrow> l = Some cl"
proof (induction ps arbitrary: acc)
  case Nil
  then show ?case by simp
next
  case (Cons p ps)
  from get_pads_Cons[OF Cons.prems] obtain op where
    "get_pads bi m ps (Some cl) (acc @ [op]) = Inr (pads, l)" by auto
  then show ?case by (rule Cons.IH)
qed

lemma get_pads_flag_free:
  "get_pads bi m ps l acc = Inr (pads, l1) \<Longrightarrow>
   \<exists>l2. get_pads bi m' ps l' acc = Inr (pads, l2)"
proof (induction ps arbitrary: l l' acc)
  case Nil
  then show ?case by simp
next
  case (Cons p ps)
  from get_pads_Cons[OF Cons.prems] obtain l0 op k where
    p: "get p ''layer'' = Some l0" "get_pad p = Inr op"
    and r: "get_pads bi m ps k (acc @ [op]) = Inr (pads, l1)" by blast
  from Cons.IH[OF r] have "\<exists>l2. get_pads bi m' ps k' (acc @ [op]) = Inr (pads, l2)" for k'
    by blast
  then show ?case by (simp add: p Let_def)
qed

lemma get_pads_first:
  assumes "get_pads bi m (p # ps) None acc = Inr (pads, l)"
  shows "\<exists>l0. get p ''layer'' = Some l0 \<and>
           l = Some (if m then (if l0 = bi_top_layer bi then bi_bottom_layer bi
                                else if l0 = bi_bottom_layer bi then bi_top_layer bi
                                else l0)
                     else l0)"
proof -
  from get_pads_Cons[OF assms] obtain l0 op where
    p: "get p ''layer'' = Some l0"
    and r: "get_pads bi m ps
              (Some (if m then (if l0 = bi_top_layer bi then bi_bottom_layer bi
                                else if l0 = bi_bottom_layer bi then bi_top_layer bi
                                else l0)
                     else l0)) (acc @ [op]) = Inr (pads, l)" by auto
  from get_pads_keeps_layer[OF r] p show ?thesis by simp
qed

lemma get_component_Some:
  assumes "get_component lx doc bi i c = Inr (Some com)"
  shows "package_pads lx doc c \<noteq> [] \<and>
         get_pads bi (is_mirrored c) (package_pads lx doc c) None [] = Inr (comp_pads com, comp_layer com)"
proof -
  from assms obtain compname where n: "get c ''name'' = Some compname" "compname \<noteq> []"
    by (cases "get c ''name''") (simp_all add: get_component_def split: if_splits)
  from assms n obtain compvalue where v: "get c ''value'' = Some compvalue"
    by (cases "get c ''value''") (simp_all add: get_component_def Let_def)
  from assms n v obtain package_name where p: "get c ''package'' = Some package_name"
    by (cases "get c ''package''") (simp_all add: get_component_def Let_def)
  from assms n v p obtain package where q: "find_package lx doc package_name = Inr package"
    by (cases "find_package lx doc package_name") (simp_all add: get_component_def Let_def)
  from assms n v p q obtain package0 others where k: "package = package0 # others"
    by (cases package) (simp_all add: get_component_def Let_def)
  have pp: "package_pads lx doc c = xpath_child package0 ''smd''"
    by (simp add: package_pads_def p q k)
  from assms n v p q k have ne: "xpath_child package0 ''smd'' \<noteq> []"
    by (cases "xpath_child package0 ''smd'' = []") (simp_all add: get_component_def Let_def)
  from assms n v p q k ne obtain compx where x: "getfloat c ''x'' = Inr compx"
    by (cases "getfloat c ''x''") (simp_all add: get_component_def Let_def)
  from assms n v p q k ne x obtain compy where y: "getfloat c ''y'' = Inr compy"
    by (cases "getfloat c ''y''") (simp_all add: get_component_def Let_def)
  have a: "(case (case get c ''rot'' of
                  None \<Rightarrow> Inr (None, False)
                | Some rot \<Rightarrow>
                    (case element_rot rot of
                       Inl e \<Rightarrow> Inl e
                     | Inr (a, m) \<Rightarrow> Inr (Some a, m)))
          of Inl e \<Rightarrow> Inl e | Inr (eangle, mirrored) \<Rightarrow>
          case get_pads bi mirrored (xpath_child package0 ''smd'') None [] of
            Inl e \<Rightarrow> Inl e
          | Inr (ourpads, complayer) \<Rightarrow>
              Inr (Some \<lparr>oid = i, comp_x = compx, comp_y = compy, comp_name = compname,
                         comp_prefix = prefix_re compname, comp_value = compvalue,
                         comp_pads = ourpads, comp_angle = eangle,
                         comp_layer = complayer\<rparr>)) = Inr (Some com)"
    using assms n v p q k ne x y by (simp add: get_component_def Let_def)
  then obtain eangle mirrored where
    r: "(case get c ''rot'' of
                  None \<Rightarrow> Inr (None, False)
                | Some rot \<Rightarrow>
                    (case element_rot rot of
                       Inl e \<Rightarrow> Inl e
                     | Inr (a, m) \<Rightarrow> Inr (Some a, m))) = Inr (eangle, mirrored)"
    by (auto split: sum.splits)
  have m: "mirrored = is_mirrored c"
    using r by (auto simp: is_mirrored_def split: option.splits sum.splits)
  from a r obtain ourpads complayer where
    g: "get_pads bi mirrored (xpath_child package0 ''smd'') None [] = Inr (ourpads, complayer)"
    and c: "com = \<lparr>oid = i, comp_x = compx, comp_y = compy, comp_name = compname,
                         comp_prefix = prefix_re compname, comp_value = compvalue,
                         comp_pads = ourpads, comp_angle = eangle,
                         comp_layer = complayer\<rparr>"
    by (auto split: sum.splits)
  show ?thesis using g c m pp ne by simp
qed

text \<open>
  C4: in a successful extraction, for every component of the list: the element it was
  built from is at the position of its identity; the first pad of the package of that
  element has a nominal layer; when the element is mirrored and that layer is the top
  layer, the layer of the component is the bottom layer, and when it is the bottom
  layer, the layer of the component is the top layer; when the element is mirrored and
  that layer is neither, or when the element is not mirrored, the layer of the
  component is that nominal layer; and mirroring changes nothing else: whatever the
  mirror flag, the loop over the pads returns the same pads, those of the component,
  with their positions, sizes and angles.
\<close>

theorem mirroring_changes_the_layer_only:
  assumes "get_board_info lx doc = Inr bi" and "com \<in> set (bi_components bi)"
  shows "oid com < length (xpath_tag doc ''element'') \<and>
         (\<exists>l0. first_pad_layer lx doc (element_of doc com) = Some l0 \<and>
            (is_mirrored (element_of doc com) \<and> l0 = bi_top_layer bi \<longrightarrow>
               comp_layer com = Some (bi_bottom_layer bi)) \<and>
            (is_mirrored (element_of doc com) \<and> l0 = bi_bottom_layer bi \<longrightarrow>
               comp_layer com = Some (bi_top_layer bi)) \<and>
            (is_mirrored (element_of doc com) \<and> l0 \<noteq> bi_top_layer bi \<and> l0 \<noteq> bi_bottom_layer bi \<longrightarrow>
               comp_layer com = Some l0) \<and>
            (\<not> is_mirrored (element_of doc com) \<longrightarrow> comp_layer com = Some l0)) \<and>
         (\<forall>m. \<exists>l. get_pads bi m (package_pads lx doc (element_of doc com)) None [] =
                  Inr (comp_pads com, l))"
proof -
  define c where "c = element_of doc com"
  have "com \<in> set (built lx doc bi 0 (xpath_tag doc ''element''))"
    using assms get_board_info_built(1)[OF assms(1)] by simp
  from built_oid[OF this] have b: "oid com < length (xpath_tag doc ''element'')"
    and g: "get_component lx doc bi (oid com) c = Inr (Some com)"
    by (simp_all add: c_def element_of_def)
  from get_component_Some[OF g] have ne: "package_pads lx doc c \<noteq> []"
    and gp: "get_pads bi (is_mirrored c) (package_pads lx doc c) None [] =
               Inr (comp_pads com, comp_layer com)" by simp_all
  from ne obtain p ps where pp: "package_pads lx doc c = p # ps"
    by (cases "package_pads lx doc c") auto
  from get_pads_first[OF gp[unfolded pp]] obtain l0 where
    l0: "get p ''layer'' = Some l0"
    and l: "comp_layer com =
              Some (if is_mirrored c
                    then (if l0 = bi_top_layer bi then bi_bottom_layer bi
                          else if l0 = bi_bottom_layer bi then bi_top_layer bi
                          else l0)
                    else l0)" by blast
  have f: "first_pad_layer lx doc c = Some l0" by (simp add: first_pad_layer_def pp l0)
  have 1: "is_mirrored c \<and> l0 = bi_top_layer bi \<longrightarrow> comp_layer com = Some (bi_bottom_layer bi)"
    using l by simp
  have 2: "is_mirrored c \<and> l0 = bi_bottom_layer bi \<longrightarrow> comp_layer com = Some (bi_top_layer bi)"
    using l by simp
  have 3: "is_mirrored c \<and> l0 \<noteq> bi_top_layer bi \<and> l0 \<noteq> bi_bottom_layer bi \<longrightarrow>
             comp_layer com = Some l0"
    using l by simp
  have 4: "\<not> is_mirrored c \<longrightarrow> comp_layer com = Some l0"
    using l by simp
  have 5: "\<exists>l. get_pads bi m (package_pads lx doc c) None [] = Inr (comp_pads com, l)" for m
    by (rule get_pads_flag_free[OF gp])
  have e: "\<exists>l0. first_pad_layer lx doc c = Some l0 \<and>
            (is_mirrored c \<and> l0 = bi_top_layer bi \<longrightarrow> comp_layer com = Some (bi_bottom_layer bi)) \<and>
            (is_mirrored c \<and> l0 = bi_bottom_layer bi \<longrightarrow> comp_layer com = Some (bi_top_layer bi)) \<and>
            (is_mirrored c \<and> l0 \<noteq> bi_top_layer bi \<and> l0 \<noteq> bi_bottom_layer bi \<longrightarrow>
               comp_layer com = Some l0) \<and>
            (\<not> is_mirrored c \<longrightarrow> comp_layer com = Some l0)"
    using f 1 2 3 4 by (intro exI[of _ l0] conjI)
  show ?thesis
    unfolding c_def[symmetric] using b e 5 by (intro conjI allI)
qed

lemma components_example:
  "built_R1 \<in> set (bi_components info_example)"
  "built_R2 \<in> set (bi_components info_example)"
  "built_C3 \<in> set (bi_components info_example)"
  "built_T1 \<in> set (bi_components info_example)"
  by (simp_all add: info_example_def)

lemma element_of_example:
  "element_of board_example built_R1 = element_R1"
  "element_of board_example built_R2 = element_R2"
  "element_of board_example built_C3 = element_C3"
  "element_of board_example built_T1 = element_T1"
  by (simp_all add: element_of_def elements_example built_R1_def built_R2_def built_C3_def
      built_T1_def)

lemma is_mirrored_example:
  "\<not> is_mirrored element_R1" "is_mirrored element_R2" "is_mirrored element_C3"
  "is_mirrored element_T1"
  by (simp_all add: is_mirrored_def element_R1_def element_R2_def element_C3_def element_T1_def
      get_def rot_examples)

lemma first_pad_layer_example:
  "first_pad_layer lx board_example element_R1 = Some ''1''"
  "first_pad_layer lx board_example element_R2 = Some ''1''"
  "first_pad_layer lx board_example element_C3 = Some ''16''"
  "first_pad_layer lx board_example element_T1 = Some ''29''"
  by (simp_all add: first_pad_layer_def package_pads_def find_package_def packages_example
      element_R1_def element_R2_def element_C3_def element_T1_def get_def,
      simp_all add: xpath_child_def package_0402_def package_0402B_def package_TP_def get_def)

lemma layers_example:
  "bi_top_layer info_example = ''1''" "bi_bottom_layer info_example = ''16''"
  "comp_layer built_R1 = Some ''1''" "comp_layer built_R2 = Some ''16''"
  "comp_layer built_C3 = Some ''1''" "comp_layer built_T1 = Some ''29''"
  "comp_pads built_T1 = pads_TP"
  by (simp_all add: info_example_def built_R1_def built_R2_def built_C3_def built_T1_def)

lemma pads_example:
  "get_pads info_example m (package_pads lx board_example element_T1) None [] =
     Inr (pads_TP, Some ''29'')"
  by (simp add: package_pads_def find_package_def packages_example element_T1_def get_def
      package_pads_example(4)[of info_example] layers_example)

text \<open>
  On the example board, whose top layer is 1 and bottom layer is 16: \<open>R1\<close> is not
  mirrored and stays on the layer 1 of its first pad; \<open>R2\<close> is mirrored, its first pad
  is on the layer 1, and it is on the layer 16; \<open>C3\<close> is mirrored, its first pad is on
  the layer 16, and it is on the layer 1; \<open>T1\<close> is mirrored, its first pad is on the
  layer 29, and it stays on the layer 29, with the pad that the loop returns for
  either value of the mirror flag.
\<close>

theorem mirroring_changes_the_layer_only_witness:
  "get_board_info lxml_rejects board_example = Inr info_example \<and>
   bi_top_layer info_example = ''1'' \<and> bi_bottom_layer info_example = ''16'' \<and>
   built_R1 \<in> set (bi_components info_example) \<and>
   \<not> is_mirrored (element_of board_example built_R1) \<and>
   first_pad_layer lxml_rejects board_example (element_of board_example built_R1) = Some ''1'' \<and>
   comp_layer built_R1 = Some ''1'' \<and>
   built_R2 \<in> set (bi_components info_example) \<and>
   is_mirrored (element_of board_example built_R2) \<and>
   first_pad_layer lxml_rejects board_example (element_of board_example built_R2) = Some ''1'' \<and>
   comp_layer built_R2 = Some ''16'' \<and>
   built_C3 \<in> set (bi_components info_example) \<and>
   is_mirrored (element_of board_example built_C3) \<and>
   first_pad_layer lxml_rejects board_example (element_of board_example built_C3) = Some ''16'' \<and>
   comp_layer built_C3 = Some ''1'' \<and>
   built_T1 \<in> set (bi_components info_example) \<and>
   is_mirrored (element_of board_example built_T1) \<and>
   first_pad_layer lxml_rejects board_example (element_of board_example built_T1) = Some ''29'' \<and>
   comp_layer built_T1 = Some ''29'' \<and>
   get_pads info_example True (package_pads lxml_rejects board_example element_T1) None [] =
     Inr (comp_pads built_T1, Some ''29'') \<and>
   get_pads info_example False (package_pads lxml_rejects board_example element_T1) None [] =
     Inr (comp_pads built_T1, Some ''29'')"
  using mirroring_changes_the_layer_only[OF get_board_info_example[of lxml_rejects] components_example(1)]
    mirroring_changes_the_layer_only[OF get_board_info_example[of lxml_rejects] components_example(2)]
    mirroring_changes_the_layer_only[OF get_board_info_example[of lxml_rejects] components_example(3)]
    mirroring_changes_the_layer_only[OF get_board_info_example[of lxml_rejects] components_example(4)]
    get_board_info_example[of lxml_rejects] components_example
  by (simp add: element_of_example is_mirrored_example first_pad_layer_example pads_example
      layers_example)

end
